theory Spec2Isabelle
  imports Main "HOL-Library.Multiset"
begin

section \<open>Values, rows and tables\<close>

text \<open>
  Identifiers (user ids, post ids, socket ids) and texts are JavaScript strings; the
  empty string is the falsy one, which is what the handlers' \<open>!x\<close> checks reject.
  Outbound payloads are flat objects or arrays of flat objects.
\<close>

datatype jsval = S string | N int | Null | Undefined

type_synonym obj = "(string \<times> jsval) list"

datatype payload = PObj obj | PArr "obj list"

definition falsy :: "string \<Rightarrow> bool" where
  "falsy x = (x = [])"

record user_row =
  u_user_id :: string
  u_username :: string
  u_profile_pic_url :: "string option"

record post_row =
  p_id :: string
  p_user_id :: string
  p_username :: "string option"
  p_content :: string
  p_media_url :: "string option"
  p_created_at :: nat

record like_row =
  l_post_id :: string
  l_user_id :: string

record comment_row =
  c_id :: string
  c_post_id :: string
  c_user_id :: string
  c_content :: string
  c_created_at :: nat

record online_row =
  o_userId :: string
  o_username :: string
  o_socketId :: string

record message_row =
  m_message_id :: nat
  m_sender_id :: string
  m_recipient_id :: string
  m_message_text :: string
  m_created_at :: nat

text \<open>
  Modelled from the spec: the SQL schema (the table definitions) is not part of the
  repository. From the statements of db.js and the data model of the spec, every table is
  a list of rows in insertion order; \<open>created_at\<close> and \<open>message_id\<close> are not supplied
  by the \<open>INSERT\<close> statements, so the table stamps them (the current time, the next
  free number). The unique key of \<open>online_users\<close>, which decides what
  \<open>ON DUPLICATE KEY UPDATE\<close> and a plain \<open>INSERT\<close> do, is a parameter of the database
  state.
\<close>

datatype online_key = KeyUserId | KeySocketId

record tables =
  users :: "user_row list"
  posts :: "post_row list"
  likes :: "like_row list"
  comments :: "comment_row list"
  online_users :: "online_row list"
  messages :: "message_row list"
  online_users_key :: online_key

section \<open>The world: database, failures, clock and the observable trace\<close>

datatype error = QueryError

datatype target = Broadcast | ToRoom string | ToSocket string

datatype action =
    Query string bool
  | Emit target string payload
  | ConsoleError string
  | UnhandledRejection

text \<open>
  \<open>faults\<close> is the schedule of storage failures: the head says whether the next call of
  \<open>pool.execute\<close> throws. \<open>trace\<close> records, in order, every query (with its outcome),
  every emitted event, every \<open>console.error\<close> and every promise rejection nobody handles.
\<close>

record world =
  db :: tables
  faults :: "bool list"
  clock :: nat
  trace :: "action list"

record socket =
  socket_id :: string
  socket_userId :: "string option"

definition log_action :: "action \<Rightarrow> world \<Rightarrow> world" where
  "log_action a w = w\<lparr>trace := trace w @ [a]\<rparr>"

definition console_error :: "string \<Rightarrow> world \<Rightarrow> world" where
  "console_error msg w = log_action (ConsoleError msg) w"

definition emit :: "target \<Rightarrow> string \<Rightarrow> payload \<Rightarrow> world \<Rightarrow> world" where
  "emit tg ev pl w = log_action (Emit tg ev pl) w"

text \<open>
  A promise that is neither awaited nor given a \<open>.catch\<close>: when it rejects, the
  surrounding \<open>try\<close> does not see the error, and the rejection is unhandled.
\<close>

definition unawaited :: "(error + 'a) \<times> world \<Rightarrow> world" where
  "unawaited r =
     (case r of (Inl e, w) \<Rightarrow> log_action UnhandledRejection w | (Inr x, w) \<Rightarrow> w)"

text \<open>
  \<open>query\<close> of db.js: run the statement on the pool; on any error log it (the three
  \<open>console.error\<close> lines are one entry of the trace) and rethrow the generic error.
  A statement is a function on the tables that may itself fail (a violated unique key).
\<close>

definition next_fails :: "world \<Rightarrow> bool" where
  "next_fails w = (case faults w of [] \<Rightarrow> False | f # fs \<Rightarrow> f)"

definition query ::
  "string \<Rightarrow> (tables \<Rightarrow> error + ('a \<times> tables)) \<Rightarrow> world \<Rightarrow> (error + 'a) \<times> world" where
  "query name stmt w =
     (let w0 = w\<lparr>faults := tl (faults w)\<rparr> in
      if next_fails w
      then (Inl QueryError,
            console_error ''Database Query Error:'' (log_action (Query name False) w0))
      else (case stmt (db w) of
              Inl e \<Rightarrow>
                (Inl QueryError,
                 console_error ''Database Query Error:'' (log_action (Query name False) w0))
            | Inr (x, t) \<Rightarrow> (Inr x, log_action (Query name True) (w0\<lparr>db := t\<rparr>))))"

section \<open>db.js: likes\<close>

definition like_matches :: "string \<Rightarrow> string \<Rightarrow> like_row \<Rightarrow> bool" where
  "like_matches postId userId r = (l_post_id r = postId \<and> l_user_id r = userId)"

text \<open>\<open>SELECT 1 FROM likes WHERE post_id = ? AND user_id = ?\<close>, then \<open>rows[0]\<close>.\<close>

definition getLike :: "string \<Rightarrow> string \<Rightarrow> world \<Rightarrow> (error + like_row option) \<times> world" where
  "getLike postId userId =
     query ''getLike'' (\<lambda>t. Inr (List.find (like_matches postId userId) (likes t), t))"

text \<open>\<open>INSERT INTO likes (post_id, user_id) VALUES (?, ?)\<close>\<close>

definition addLike :: "string \<Rightarrow> string \<Rightarrow> world \<Rightarrow> (error + unit) \<times> world" where
  "addLike postId userId =
     query ''addLike''
       (\<lambda>t. Inr ((), t\<lparr>likes := likes t @ [\<lparr>l_post_id = postId, l_user_id = userId\<rparr>]\<rparr>))"

text \<open>\<open>DELETE FROM likes WHERE post_id = ? AND user_id = ?\<close>\<close>

definition removeLike :: "string \<Rightarrow> string \<Rightarrow> world \<Rightarrow> (error + unit) \<times> world" where
  "removeLike postId userId =
     query ''removeLike''
       (\<lambda>t. Inr ((), t\<lparr>likes := filter (\<lambda>r. \<not> like_matches postId userId r) (likes t)\<rparr>))"

text \<open>\<open>SELECT COUNT(*) as newCount FROM likes WHERE post_id = ?\<close>, then \<open>rows[0].newCount\<close>.\<close>

definition countLikes :: "string \<Rightarrow> tables \<Rightarrow> nat" where
  "countLikes postId t = length (filter (\<lambda>r. l_post_id r = postId) (likes t))"

definition getLikeCount :: "string \<Rightarrow> world \<Rightarrow> (error + int) \<times> world" where
  "getLikeCount postId =
     query ''getLikeCount'' (\<lambda>t. Inr (int (countLikes postId t), t))"

section \<open>server.js: the likePost handler\<close>

record like_data =
  ld_postId :: string
  ld_userId :: string

definition on_likePost :: "like_data \<Rightarrow> socket \<Rightarrow> world \<Rightarrow> world \<times> socket" where
  "on_likePost data s w =
     (let postId = ld_postId data; userId = ld_userId data in
      case getLike postId userId w of
        (Inl e, w1) \<Rightarrow> (console_error ''Error handling likePost:'' w1, s)
      | (Inr row, w1) \<Rightarrow>
          (case (if row \<noteq> None then removeLike postId userId w1
                 else addLike postId userId w1) of
             (Inl e, w2) \<Rightarrow> (console_error ''Error handling likePost:'' w2, s)
           | (Inr u, w2) \<Rightarrow>
               (case getLikeCount postId w2 of
                  (Inl e, w3) \<Rightarrow> (console_error ''Error handling likePost:'' w3, s)
                | (Inr newCount, w3) \<Rightarrow>
                    (emit Broadcast ''likeUpdate''
                       (PObj [(''postId'', S postId), (''newCount'', N newCount)]) w3, s))))"

text \<open>A sequence of \<open>n\<close> toggles of the same pair, each handled to completion before the next.\<close>

fun toggles :: "nat \<Rightarrow> like_data \<Rightarrow> socket \<Rightarrow> world \<Rightarrow> world" where
  "toggles 0 data s w = w"
| "toggles (Suc n) data s w = fst (on_likePost data s (toggles n data s w))"

definition liked :: "string \<Rightarrow> string \<Rightarrow> tables \<Rightarrow> bool" where
  "liked postId userId t = (List.find (like_matches postId userId) (likes t) \<noteq> None)"

fun emits :: "action list \<Rightarrow> (target \<times> string \<times> payload) list" where
  "emits [] = []"
| "emits (Emit tg ev pl # as) = (tg, ev, pl) # emits as"
| "emits (a # as) = emits as"

text \<open>The like rows of a post that belong to other users than \<open>userId\<close>.\<close>

definition others :: "string \<Rightarrow> string \<Rightarrow> tables \<Rightarrow> nat" where
  "others postId userId t =
     length (filter (\<lambda>r. l_post_id r = postId \<and> l_user_id r \<noteq> userId) (likes t))"

definition likeUpdate :: "string \<Rightarrow> nat \<Rightarrow> target \<times> string \<times> payload" where
  "likeUpdate postId c =
     (Broadcast, ''likeUpdate'', PObj [(''postId'', S postId), (''newCount'', N (int c))])"

definition toggled :: "string \<Rightarrow> string \<Rightarrow> tables \<Rightarrow> tables" where
  "toggled p u t =
     (if liked p u t then t\<lparr>likes := filter (\<lambda>r. \<not> like_matches p u r) (likes t)\<rparr>
      else t\<lparr>likes := likes t @ [\<lparr>l_post_id = p, l_user_id = u\<rparr>]\<rparr>)"

section \<open>db.js: presence\<close>

definition key_clash :: "online_key \<Rightarrow> online_row \<Rightarrow> online_row \<Rightarrow> bool" where
  "key_clash k new r =
     (case k of KeyUserId \<Rightarrow> o_userId r = o_userId new
              | KeySocketId \<Rightarrow> o_socketId r = o_socketId new)"

text \<open>The unique key holds of a table: no two rows at different positions clash.\<close>

definition key_ok :: "tables \<Rightarrow> bool" where
  "key_ok t =
     (case online_users_key t of
        KeyUserId \<Rightarrow> distinct (map o_userId (online_users t))
      | KeySocketId \<Rightarrow> distinct (map o_socketId (online_users t)))"

text \<open>
  \<open>INSERT INTO online_users (userId, username, socketId) VALUES (?, ?, ?)
  ON DUPLICATE KEY UPDATE socketId = ?\<close>
\<close>

definition setOnlineStatus ::
  "string \<Rightarrow> string \<Rightarrow> string \<Rightarrow> world \<Rightarrow> (error + unit) \<times> world" where
  "setOnlineStatus userId username socketId =
     query ''setOnlineStatus''
       (\<lambda>t. let new = \<lparr>o_userId = userId, o_username = username, o_socketId = socketId\<rparr>;
                 k = online_users_key t
             in if list_ex (key_clash k new) (online_users t)
                then Inr ((), t\<lparr>online_users :=
                        map (\<lambda>r. if key_clash k new r then r\<lparr>o_socketId := socketId\<rparr> else r)
                          (online_users t)\<rparr>)
                else Inr ((), t\<lparr>online_users := online_users t @ [new]\<rparr>))"

text \<open>\<open>DELETE FROM online_users WHERE socketId = ?\<close>\<close>

definition removeOnlineStatusBySocketId :: "string \<Rightarrow> world \<Rightarrow> (error + unit) \<times> world" where
  "removeOnlineStatusBySocketId socketId =
     query ''removeOnlineStatusBySocketId''
       (\<lambda>t. Inr ((), t\<lparr>online_users := filter (\<lambda>r. o_socketId r \<noteq> socketId) (online_users t)\<rparr>))"

text \<open>\<open>DELETE FROM online_users WHERE userId = ?\<close>\<close>

definition removeOnlineStatusByUserId :: "string \<Rightarrow> world \<Rightarrow> (error + unit) \<times> world" where
  "removeOnlineStatusByUserId userId =
     query ''removeOnlineStatusByUserId''
       (\<lambda>t. Inr ((), t\<lparr>online_users := filter (\<lambda>r. o_userId r \<noteq> userId) (online_users t)\<rparr>))"

text \<open>\<open>SELECT userId, username, socketId FROM online_users\<close>: the rows as objects.\<close>

definition online_object :: "online_row \<Rightarrow> obj" where
  "online_object r =
     [(''userId'', S (o_userId r)), (''username'', S (o_username r)),
      (''socketId'', S (o_socketId r))]"

definition getOnlineUsers :: "world \<Rightarrow> (error + obj list) \<times> world" where
  "getOnlineUsers =
     query ''getOnlineUsers'' (\<lambda>t. Inr (map online_object (online_users t), t))"

text \<open>
  \<open>SELECT socketId FROM online_users WHERE userId = ?\<close>, then
  \<open>rows[0] ? rows[0].socketId : null\<close>.
\<close>

definition getRecipientSocketId :: "string \<Rightarrow> world \<Rightarrow> (error + string option) \<times> world" where
  "getRecipientSocketId recipientId =
     query ''getRecipientSocketId''
       (\<lambda>t. Inr (case filter (\<lambda>r. o_userId r = recipientId) (online_users t) of
                    [] \<Rightarrow> None
                  | r # rs \<Rightarrow> Some (o_socketId r), t))"


text \<open>\<open>unregisterOnlineUser\<close> of the later db.js: the delete, returning \<open>affectedRows > 0\<close>.\<close>

definition unregisterOnlineUser :: "string \<Rightarrow> world \<Rightarrow> (error + bool) \<times> world" where
  "unregisterOnlineUser socketId =
     query ''unregisterOnlineUser''
       (\<lambda>t. Inr (list_ex (\<lambda>r. o_socketId r = socketId) (online_users t),
                  t\<lparr>online_users := filter (\<lambda>r. o_socketId r \<noteq> socketId) (online_users t)\<rparr>))"


section \<open>db.js: private messages\<close>

record chat_row =
  h_message_id :: nat
  h_sender_id :: string
  h_message :: string
  h_timestamp :: nat

text \<open>
  \<open>INSERT INTO messages (sender_id, recipient_id, message_text) VALUES (?, ?, ?)\<close>:
  the table gives the row the next \<open>message_id\<close> and the current time as \<open>created_at\<close>;
  the result is \<open>affectedRows > 0\<close>.
\<close>

definition next_message_id :: "message_row list \<Rightarrow> nat" where
  "next_message_id ms = Suc (foldr max (map m_message_id ms) 0)"

definition savePrivateMessage ::
  "string \<Rightarrow> string \<Rightarrow> string \<Rightarrow> world \<Rightarrow> (error + bool) \<times> world" where
  "savePrivateMessage senderId recipientId message w =
     query ''savePrivateMessage''
       (\<lambda>t. Inr (True, t\<lparr>messages := messages t @
                  [\<lparr>m_message_id = next_message_id (messages t), m_sender_id = senderId,
                    m_recipient_id = recipientId, m_message_text = message,
                    m_created_at = clock w\<rparr>]\<rparr>)) w"

text \<open>
  \<open>SELECT message_id, sender_id, message_text AS message, created_at AS timestamp
  FROM messages WHERE (sender_id = ? AND recipient_id = ?) OR (sender_id = ? AND recipient_id = ?)
  ORDER BY created_at ASC\<close> with the parameters
  \<open>[senderId, recipientId, recipientId, senderId]\<close>.
\<close>

definition chat_view :: "message_row \<Rightarrow> chat_row" where
  "chat_view m =
     \<lparr>h_message_id = m_message_id m, h_sender_id = m_sender_id m,
      h_message = m_message_text m, h_timestamp = m_created_at m\<rparr>"

definition getChatHistory :: "string \<Rightarrow> string \<Rightarrow> world \<Rightarrow> (error + chat_row list) \<times> world" where
  "getChatHistory senderId recipientId =
     query ''getChatHistory''
       (\<lambda>t. Inr (map chat_view
                   (sort_key m_created_at
                      (filter (\<lambda>m. (m_sender_id m = senderId \<and> m_recipient_id m = recipientId) \<or>
                                    (m_sender_id m = recipientId \<and> m_recipient_id m = senderId))
                         (messages t))), t))"

section \<open>server.js: presence handlers and the online-users broadcast\<close>

definition field :: "string \<Rightarrow> obj \<Rightarrow> jsval" where
  "field k ob = (case map_of ob k of None \<Rightarrow> Undefined | Some v \<Rightarrow> v)"

text \<open>
  \<open>broadcastOnlineUsers\<close>: read the table, keep \<open>userId\<close> and \<open>username\<close> of every row,
  emit to all.
\<close>

definition broadcastOnlineUsers :: "world \<Rightarrow> (error + unit) \<times> world" where
  "broadcastOnlineUsers w =
     (case getOnlineUsers w of
        (Inl e, w1) \<Rightarrow> (Inl e, w1)
      | (Inr us, w1) \<Rightarrow>
          (Inr (),
           emit Broadcast ''onlineUsers''
             (PArr (map (\<lambda>u. [(''userId'', field ''userId'' u),
                               (''username'', field ''username'' u)]) us)) w1))"

record presence_data =
  pd_userId :: string
  pd_username :: string

text \<open>The handlers call \<open>broadcastOnlineUsers()\<close> without awaiting it.\<close>

definition on_userOnline :: "presence_data \<Rightarrow> socket \<Rightarrow> world \<Rightarrow> world \<times> socket" where
  "on_userOnline data s w =
     (let userId = pd_userId data; username = pd_username data in
      if falsy userId \<or> falsy username then (w, s)
      else case setOnlineStatus userId username (socket_id s) w of
             (Inl e, w1) \<Rightarrow> (console_error ''Error setting user online status:'' w1, s)
           | (Inr u, w1) \<Rightarrow>
               (unawaited (broadcastOnlineUsers w1), s\<lparr>socket_userId := Some userId\<rparr>))"

definition on_userOffline :: "presence_data \<Rightarrow> socket \<Rightarrow> world \<Rightarrow> world \<times> socket" where
  "on_userOffline data s w =
     (let userId = pd_userId data in
      if falsy userId then (w, s)
      else case removeOnlineStatusByUserId userId w of
             (Inl e, w1) \<Rightarrow> (console_error ''Error removing user status:'' w1, s)
           | (Inr u, w1) \<Rightarrow>
               (unawaited (broadcastOnlineUsers w1), s\<lparr>socket_userId := None\<rparr>))"

definition identified :: "socket \<Rightarrow> bool" where
  "identified s = (case socket_userId s of None \<Rightarrow> False | Some u \<Rightarrow> u \<noteq> [])"

definition on_disconnect :: "socket \<Rightarrow> world \<Rightarrow> world \<times> socket" where
  "on_disconnect s w =
     (if identified s
      then case removeOnlineStatusBySocketId (socket_id s) w of
             (Inl e, w1) \<Rightarrow>
               (console_error ''Error removing user status on disconnect:'' w1, s)
           | (Inr u, w1) \<Rightarrow> (unawaited (broadcastOnlineUsers w1), s)
      else (w, s))"

text \<open>
  The disconnect handler of the later server revision, on \<open>unregisterOnlineUser\<close>:
  it broadcasts only when the delete removed a row.
\<close>

definition on_disconnect_later :: "socket \<Rightarrow> world \<Rightarrow> world \<times> socket" where
  "on_disconnect_later s w =
     (case unregisterOnlineUser (socket_id s) w of
        (Inl e, w1) \<Rightarrow> (console_error ''Error unregistering user:'' w1, s)
      | (Inr removed, w1) \<Rightarrow>
          if removed then (unawaited (broadcastOnlineUsers w1), s) else (w1, s))"

text \<open>
  The session-based server revision: on connection of an authenticated session it sets
  the user online and emits the rows of \<open>getOnlineUsers\<close> as they come; the promise chain
  ends in a \<open>.catch\<close>.
\<close>

record session_user =
  su_id :: string
  su_username :: string

definition on_connection_session :: "session_user option \<Rightarrow> socket \<Rightarrow> world \<Rightarrow> world" where
  "on_connection_session user s w =
     (case user of
        None \<Rightarrow> w
      | Some usr \<Rightarrow>
          (case setOnlineStatus (su_id usr) (su_username usr) (socket_id s) w of
             (Inl e, w1) \<Rightarrow> console_error ''Error setting online status:'' w1
           | (Inr u, w1) \<Rightarrow>
               (case getOnlineUsers w1 of
                  (Inl e, w2) \<Rightarrow> console_error ''Error setting online status:'' w2
                | (Inr onlineUsers, w2) \<Rightarrow>
                    emit Broadcast ''onlineUsers'' (PArr onlineUsers) w2)))"

text \<open>The field names that occur in a payload.\<close>

definition payload_keys :: "payload \<Rightarrow> string set" where
  "payload_keys pl =
     (case pl of PObj ob \<Rightarrow> set (map fst ob) | PArr obs \<Rightarrow> set (concat (map (map fst) obs)))"

section \<open>server.js: the privateMessage handler\<close>

record private_message =
  pm_senderId :: string
  pm_recipientId :: string
  pm_message :: string

text \<open>\<open>fullMsg\<close>; the ISO timestamp of \<open>new Date()\<close> is the clock's reading.\<close>

definition fullMsg :: "private_message \<Rightarrow> nat \<Rightarrow> payload" where
  "fullMsg msg now =
     PObj [(''sender_id'', S (pm_senderId msg)), (''recipient_id'', S (pm_recipientId msg)),
           (''message'', S (pm_message msg)), (''timestamp'', N (int now))]"

definition on_privateMessage :: "private_message \<Rightarrow> socket \<Rightarrow> world \<Rightarrow> world \<times> socket" where
  "on_privateMessage msg s w =
     (let senderId = pm_senderId msg; recipientId = pm_recipientId msg; message = pm_message msg in
      if falsy senderId \<or> falsy recipientId \<or> falsy message then (w, s)
      else case savePrivateMessage senderId recipientId message w of
             (Inl e, w1) \<Rightarrow> (console_error ''Error handling private message:'' w1, s)
           | (Inr saved, w1) \<Rightarrow>
               (case getRecipientSocketId recipientId w1 of
                  (Inl e, w2) \<Rightarrow> (console_error ''Error handling private message:'' w2, s)
                | (Inr recipientSocketId, w2) \<Rightarrow>
                    (let w3 = (case recipientSocketId of
                                 None \<Rightarrow> w2
                               | Some sid \<Rightarrow>
                                   if falsy sid then w2
                                   else emit (ToRoom sid) ''newPrivateMessage''
                                          (fullMsg msg (clock w1)) w2)
                     in (emit (ToSocket (socket_id s)) ''newPrivateMessage''
                           (fullMsg msg (clock w1)) w3, s))))"

text \<open>An attempt at live delivery: resolving the recipient's connection, or any emit.\<close>

fun is_delivery :: "action \<Rightarrow> bool" where
  "is_delivery (Emit tg ev pl) = True"
| "is_delivery (Query name ok) = (name = ''getRecipientSocketId'')"
| "is_delivery a = False"

fun is_failure :: "action \<Rightarrow> bool" where
  "is_failure (Query name ok) = (\<not> ok)"
| "is_failure a = False"

section \<open>db.js: the feed\<close>

record post_view =
  pv_id :: string
  pv_user_id :: string
  pv_content :: string
  pv_media_url :: "string option"
  pv_created_at :: nat
  pv_username :: "string option"
  pv_profilePicUrl :: "string option"
  pv_likesCount :: int

text \<open>
  \<open>FROM posts p JOIN users u ON p.user_id = u.user_id\<close>. With \<open>posts.id\<close> and
  \<open>users.user_id\<close> the primary keys, \<open>GROUP BY p.id\<close> leaves one row for each joined
  pair and \<open>COUNT(l.user_id)\<close> over the left join with \<open>likes\<close> is the number of like
  rows of the post.
\<close>

definition posts_join_users :: "tables \<Rightarrow> (post_row \<times> user_row) list" where
  "posts_join_users t =
     concat (map (\<lambda>p. map (Pair p) (filter (\<lambda>u. u_user_id u = p_user_id p) (users t)))
               (posts t))"

text \<open>\<open>ORDER BY p.created_at DESC\<close>\<close>

definition newest_first :: "(post_row \<times> user_row) list \<Rightarrow> (post_row \<times> user_row) list" where
  "newest_first rows = sort_key (\<lambda>r. - int (p_created_at (fst r))) rows"

definition feed_view :: "tables \<Rightarrow> post_row \<times> user_row \<Rightarrow> post_view" where
  "feed_view t r =
     \<lparr>pv_id = p_id (fst r), pv_user_id = p_user_id (fst r), pv_content = p_content (fst r),
      pv_media_url = p_media_url (fst r), pv_created_at = p_created_at (fst r),
      pv_username = Some (u_username (snd r)), pv_profilePicUrl = u_profile_pic_url (snd r),
      pv_likesCount = int (countLikes (p_id (fst r)) t)\<rparr>"

text \<open>
  \<open>getAllPosts\<close> of db.js: the join, newest first, \<open>LIMIT 20\<close>. (The earlier revision in
  the same file has the same \<open>FROM\<close>, \<open>ORDER BY\<close> and \<open>LIMIT\<close> and selects no
  profile picture.)
\<close>

definition getAllPosts :: "world \<Rightarrow> (error + post_view list) \<times> world" where
  "getAllPosts =
     query ''getAllPosts''
       (\<lambda>t. Inr (map (feed_view t) (take 20 (newest_first (posts_join_users t))), t))"

text \<open>
  \<open>getAllPosts\<close> of the later db.js: the same join and order, the user name read from
  the post row, the like count by a subquery, and no \<open>LIMIT\<close>.
\<close>

definition feed_view_later :: "tables \<Rightarrow> post_row \<times> user_row \<Rightarrow> post_view" where
  "feed_view_later t r = (feed_view t r)\<lparr>pv_username := p_username (fst r)\<rparr>"

definition getAllPosts_later :: "world \<Rightarrow> (error + post_view list) \<times> world" where
  "getAllPosts_later =
     query ''getAllPosts''
       (\<lambda>t. Inr (map (feed_view_later t) (newest_first (posts_join_users t)), t))"

section \<open>db.js and server.js: comments\<close>

record comment_view =
  cv_id :: string
  cv_post_id :: string
  cv_user_id :: string
  cv_content :: string
  cv_created_at :: nat
  cv_username :: string
  cv_profilePicUrl :: "string option"

text \<open>
  \<open>INSERT INTO comments (id, post_id, user_id, content) VALUES (?, ?, ?, ?)\<close>; the table
  stamps \<open>created_at\<close>; the result is \<open>affectedRows > 0\<close>.
\<close>

definition createComment ::
  "string \<Rightarrow> string \<Rightarrow> string \<Rightarrow> string \<Rightarrow> world \<Rightarrow> (error + bool) \<times> world" where
  "createComment commentId postId userId content w =
     query ''createComment''
       (\<lambda>t. Inr (True, t\<lparr>comments := comments t @
                  [\<lparr>c_id = commentId, c_post_id = postId, c_user_id = userId,
                    c_content = content, c_created_at = clock w\<rparr>]\<rparr>)) w"

text \<open>
  \<open>SELECT c.id, c.post_id, c.user_id, c.content, c.created_at, u.username,
  u.profile_pic_url AS profilePicUrl FROM comments c JOIN users u ON c.user_id = u.user_id
  WHERE c.post_id = ? ORDER BY c.created_at ASC\<close>
\<close>

definition comment_join :: "comment_row \<times> user_row \<Rightarrow> comment_view" where
  "comment_join r =
     \<lparr>cv_id = c_id (fst r), cv_post_id = c_post_id (fst r), cv_user_id = c_user_id (fst r),
      cv_content = c_content (fst r), cv_created_at = c_created_at (fst r),
      cv_username = u_username (snd r), cv_profilePicUrl = u_profile_pic_url (snd r)\<rparr>"

definition getCommentsByPostId :: "string \<Rightarrow> world \<Rightarrow> (error + comment_view list) \<times> world" where
  "getCommentsByPostId postId =
     query ''getCommentsByPostId''
       (\<lambda>t. Inr (map comment_join
                   (sort_key (\<lambda>r. c_created_at (fst r))
                      (concat (map (\<lambda>c. map (Pair c)
                                           (filter (\<lambda>u. u_user_id u = c_user_id c) (users t)))
                                 (filter (\<lambda>c. c_post_id c = postId) (comments t))))), t))"

text \<open>
  \<open>app.post('/api/comment')\<close>: the request body carries \<open>post_id\<close>, \<open>user_id\<close>,
  \<open>content\<close> and, for the broadcast, \<open>username\<close> and \<open>profilePicUrl\<close>; \<open>commentId\<close>
  is the fresh UUID.
\<close>

record comment_body =
  cb_post_id :: string
  cb_user_id :: string
  cb_content :: string
  cb_username :: jsval
  cb_profilePicUrl :: jsval

record http_response =
  res_status :: nat
  res_success :: bool
  res_comment :: "obj option"

definition newComment :: "comment_body \<Rightarrow> string \<Rightarrow> nat \<Rightarrow> obj" where
  "newComment body commentId now =
     [(''id'', S commentId), (''post_id'', S (cb_post_id body)),
      (''user_id'', S (cb_user_id body)), (''username'', cb_username body),
      (''content'', S (cb_content body)), (''profilePicUrl'', cb_profilePicUrl body),
      (''created_at'', N (int now))]"

definition api_comment :: "comment_body \<Rightarrow> string \<Rightarrow> world \<Rightarrow> http_response \<times> world" where
  "api_comment body commentId w =
     (if falsy (cb_post_id body) \<or> falsy (cb_user_id body) \<or> falsy (cb_content body)
      then (\<lparr>res_status = 400, res_success = False, res_comment = None\<rparr>, w)
      else case createComment commentId (cb_post_id body) (cb_user_id body) (cb_content body) w of
             (Inl e, w1) \<Rightarrow>
               (\<lparr>res_status = 500, res_success = False, res_comment = None\<rparr>,
                console_error ''Comment posting error:'' w1)
           | (Inr ok, w1) \<Rightarrow>
               if ok
               then (\<lparr>res_status = 200, res_success = True,
                      res_comment = Some (newComment body commentId (clock w1))\<rparr>,
                     emit Broadcast ''commentUpdate''
                       (PObj (newComment body commentId (clock w1))) w1)
               else (\<lparr>res_status = 500, res_success = False, res_comment = None\<rparr>, w1))"

text \<open>What the users table holds for a user at a given moment.\<close>

definition profile_of :: "string \<Rightarrow> tables \<Rightarrow> (string \<times> string option) list" where
  "profile_of userId t =
     map (\<lambda>u. (u_username u, u_profile_pic_url u))
       (filter (\<lambda>u. u_user_id u = userId) (users t))"

text \<open>What the upsert does to the rows when the key is \<open>userId\<close>.\<close>

definition upsert_socket :: "string \<Rightarrow> string \<Rightarrow> string \<Rightarrow> online_row list \<Rightarrow> online_row list" where
  "upsert_socket u name c rows =
     (if list_ex (\<lambda>r. o_userId r = u) rows
      then map (\<lambda>r. if o_userId r = u then r\<lparr>o_socketId := c\<rparr> else r) rows
      else rows @ [\<lparr>o_userId = u, o_username = name, o_socketId = c\<rparr>])"

section \<open>Observations\<close>

text \<open>The entry of the online list that \<open>broadcastOnlineUsers\<close> builds from a row.\<close>

definition public_entry :: "online_row \<Rightarrow> obj" where
  "public_entry r = [(''userId'', S (o_userId r)), (''username'', S (o_username r))]"

text \<open>The actions a step added to the trace.\<close>

definition new_actions :: "world \<Rightarrow> world \<Rightarrow> action list" where
  "new_actions w w' = drop (length (trace w)) (trace w')"

text \<open>The row that \<open>savePrivateMessage\<close> inserts for a message in a given world.\<close>

definition saved_row :: "private_message \<Rightarrow> world \<Rightarrow> message_row" where
  "saved_row msg w =
     \<lparr>m_message_id = next_message_id (messages (db w)), m_sender_id = pm_senderId msg,
      m_recipient_id = pm_recipientId msg, m_message_text = pm_message msg,
      m_created_at = clock w\<rparr>"

section \<open>Concrete states used by the examples\<close>

definition w_empty :: world where
  "w_empty =
     \<lparr>db = \<lparr>users = [], posts = [], likes = [], comments = [], online_users = [],
            messages = [], online_users_key = KeyUserId\<rparr>,
      faults = [], clock = 0, trace = []\<rparr>"

definition s_one :: socket where
  "s_one = \<lparr>socket_id = ''s1'', socket_userId = None\<rparr>"

definition w_bob_online :: world where
  "w_bob_online = w_empty\<lparr>db := (db w_empty)\<lparr>online_users :=
      [\<lparr>o_userId = ''u2'', o_username = ''bob'', o_socketId = ''s2''\<rparr>]\<rparr>\<rparr>"

definition msg_hi :: private_message where
  "msg_hi = \<lparr>pm_senderId = ''u1'', pm_recipientId = ''u2'', pm_message = ''hi''\<rparr>"

definition alice :: session_user where
  "alice = \<lparr>su_id = ''u1'', su_username = ''alice''\<rparr>"

definition s_alice :: socket where
  "s_alice = \<lparr>socket_id = ''s1'', socket_userId = Some ''u1''\<rparr>"

definition w_alice_online :: world where
  "w_alice_online = w_empty\<lparr>db := (db w_empty)\<lparr>online_users :=
      [\<lparr>o_userId = ''u1'', o_username = ''alice'', o_socketId = ''s1''\<rparr>]\<rparr>\<rparr>"

definition come_online :: presence_data where
  "come_online = \<lparr>pd_userId = ''u1'', pd_username = ''alice''\<rparr>"

definition w_profile :: world where
  "w_profile = w_empty\<lparr>db := (db w_empty)\<lparr>users :=
      [\<lparr>u_user_id = ''u1'', u_username = ''alice'', u_profile_pic_url = Some ''/new.png''\<rparr>]\<rparr>\<rparr>"

definition body_stale :: comment_body where
  "body_stale =
     \<lparr>cb_post_id = ''p1'', cb_user_id = ''u1'', cb_content = ''nice'',
      cb_username = S ''alice'', cb_profilePicUrl = S ''/old.png''\<rparr>"

definition mk_post :: "nat \<Rightarrow> post_row" where
  "mk_post n =
     \<lparr>p_id = replicate (Suc n) CHR ''p'', p_user_id = ''u1'', p_username = None,
      p_content = ''hello'', p_media_url = None, p_created_at = n\<rparr>"

definition w_feed :: world where
  "w_feed = w_profile\<lparr>db := (db w_profile)\<lparr>posts := map mk_post [0..<21]\<rparr>\<rparr>"

definition w_lookup_fails :: world where
  "w_lookup_fails = w_empty\<lparr>faults := [False, True]\<rparr>"


section \<open>Basic facts about queries and traces\<close>

lemma emits_append: "emits (xs @ ys) = emits xs @ emits ys"
  by (induction xs rule: emits.induct) auto

lemma query_cases:
  "query name stmt w =
     (if next_fails w \<or> (\<exists>e. stmt (db w) = Inl e)
      then (Inl QueryError,
            w\<lparr>faults := tl (faults w),
              trace := trace w @ [Query name False, ConsoleError ''Database Query Error:'']\<rparr>)
      else (Inr (fst (projr (stmt (db w)))),
            w\<lparr>faults := tl (faults w), db := snd (projr (stmt (db w))),
              trace := trace w @ [Query name True]\<rparr>))"
  by (auto simp: query_def Let_def log_action_def console_error_def split: sum.splits)

lemma query_ok:
  "faults w = [] \<Longrightarrow> query name (\<lambda>t. Inr (f t, g t)) w =
     (Inr (f (db w)), w\<lparr>db := g (db w), trace := trace w @ [Query name True]\<rparr>)"
  by (simp add: query_def log_action_def Let_def next_fails_def)


section \<open>Like toggling\<close>




lemma on_likePost_ok:
  assumes "faults w = []"
  shows "fst (on_likePost \<lparr>ld_postId = p, ld_userId = u\<rparr> s w) =
     w\<lparr>db := toggled p u (db w),
       trace := trace w @ [Query ''getLike'' True,
          Query (if liked p u (db w) then ''removeLike'' else ''addLike'') True,
          Query ''getLikeCount'' True,
          Emit Broadcast ''likeUpdate''
            (PObj [(''postId'', S p), (''newCount'', N (int (countLikes p (toggled p u (db w)))))])]\<rparr>"
  using assms
  by (simp add: on_likePost_def getLike_def addLike_def removeLike_def getLikeCount_def
      query_ok emit_def log_action_def toggled_def liked_def)

lemma liked_toggled: "liked p u (toggled p u t) = (\<not> liked p u t)"
  by (force simp: liked_def toggled_def find_None_iff like_matches_def)

lemma others_toggled: "others p u (toggled p u t) = others p u t"
  by (auto simp: others_def toggled_def like_matches_def intro: arg_cong[where f=length] filter_cong)

lemma countLikes_toggled:
  "countLikes p (toggled p u t) = others p u t + (if liked p u t then 0 else 1)"
proof -
  have split: "\<And>xs. length (filter (\<lambda>r. l_post_id r = p) xs) =
      length (filter (\<lambda>r. l_post_id r = p \<and> l_user_id r \<noteq> u) xs) +
      length (filter (like_matches p u) xs)"
    subgoal for xs by (induction xs) (auto simp: like_matches_def)
    done
  show ?thesis
  proof (cases "liked p u t")
    case True
    have "filter (\<lambda>r. l_post_id r = p) (filter (\<lambda>r. \<not> like_matches p u r) (likes t)) =
          filter (\<lambda>r. l_post_id r = p \<and> l_user_id r \<noteq> u) (likes t)"
      by (auto simp: like_matches_def intro: filter_cong)
    with True show ?thesis by (simp add: countLikes_def toggled_def others_def)
  next
    case False
    then have "filter (like_matches p u) (likes t) = []"
      by (auto simp: liked_def find_None_iff filter_empty_conv)
    with False split[of "likes t"] show ?thesis
      by (simp add: countLikes_def toggled_def others_def)
  qed
qed

lemma faults_toggles: "faults w = [] \<Longrightarrow> faults (toggles n \<lparr>ld_postId = p, ld_userId = u\<rparr> s w) = []"
  by (induction n) (simp_all add: on_likePost_ok)

lemma db_toggles_Suc:
  "faults w = [] \<Longrightarrow> db (toggles (Suc n) \<lparr>ld_postId = p, ld_userId = u\<rparr> s w) =
     toggled p u (db (toggles n \<lparr>ld_postId = p, ld_userId = u\<rparr> s w))"
  by (simp add: on_likePost_ok faults_toggles)

lemma liked_toggles:
  "faults w = [] \<Longrightarrow>
   liked p u (db (toggles n \<lparr>ld_postId = p, ld_userId = u\<rparr> s w)) = (liked p u (db w) \<noteq> odd n)"
proof (induction n)
  case 0 show ?case by simp
next
  case (Suc n)
  then show ?case by (simp only: db_toggles_Suc liked_toggled) auto
qed

lemma others_toggles:
  "faults w = [] \<Longrightarrow>
   others p u (db (toggles n \<lparr>ld_postId = p, ld_userId = u\<rparr> s w)) = others p u (db w)"
proof (induction n)
  case 0 show ?case by simp
next
  case (Suc n)
  then show ?case by (simp only: db_toggles_Suc others_toggled)
qed

lemma count_toggles:
  "faults w = [] \<Longrightarrow>
   countLikes p (db (toggles (Suc n) \<lparr>ld_postId = p, ld_userId = u\<rparr> s w)) =
     others p u (db w) + (if liked p u (db w) = odd n then 1 else 0)"
  by (simp only: db_toggles_Suc countLikes_toggled others_toggles liked_toggles) auto

lemma emits_toggles:
  "faults w = [] \<Longrightarrow>
   emits (trace (toggles n \<lparr>ld_postId = p, ld_userId = u\<rparr> s w)) =
     emits (trace w) @
     map (\<lambda>i. likeUpdate p (countLikes p (db (toggles i \<lparr>ld_postId = p, ld_userId = u\<rparr> s w)))) [1..<Suc n]"
proof (induction n)
  case 0 show ?case by simp
next
  case (Suc n)
  have "emits (trace (toggles (Suc n) \<lparr>ld_postId = p, ld_userId = u\<rparr> s w)) =
        emits (trace (toggles n \<lparr>ld_postId = p, ld_userId = u\<rparr> s w)) @
        [likeUpdate p (countLikes p (db (toggles (Suc n) \<lparr>ld_postId = p, ld_userId = u\<rparr> s w)))]"
    using Suc.prems by (simp add: on_likePost_ok faults_toggles emits_append likeUpdate_def)
  with Suc show ?case by simp
qed

text \<open>
  C1. Toggles of one (postId, userId) pair handled one after the other, with the storage
  working: after \<open>n\<close> toggles the like is present exactly when its initial presence
  differs from the parity of \<open>n\<close>; starting from an absent like it is present iff \<open>n\<close>
  is odd. The handler emits one \<open>likeUpdate\<close> per toggle, and the count it carries is the
  number of like rows of the post in the table at that moment, which is the number of
  likes by other users plus one when the like is present.
\<close>

theorem likePost_toggle_sequence:
  assumes "faults w = []"
  shows "liked p u (db (toggles n \<lparr>ld_postId = p, ld_userId = u\<rparr> s w)) = (liked p u (db w) \<noteq> odd n) \<and>
     (\<not> liked p u (db w) \<longrightarrow>
        liked p u (db (toggles n \<lparr>ld_postId = p, ld_userId = u\<rparr> s w)) = odd n) \<and>
     emits (trace (toggles n \<lparr>ld_postId = p, ld_userId = u\<rparr> s w)) =
       emits (trace w) @
       map (\<lambda>i. likeUpdate p (countLikes p (db (toggles i \<lparr>ld_postId = p, ld_userId = u\<rparr> s w))))
         [1..<Suc n] \<and>
     (\<forall>i\<in>{1..n}. countLikes p (db (toggles i \<lparr>ld_postId = p, ld_userId = u\<rparr> s w)) =
        others p u (db w) + (if liked p u (db w) \<noteq> odd i then 1 else 0))"
proof -
  have c: "countLikes p (db (toggles i \<lparr>ld_postId = p, ld_userId = u\<rparr> s w)) =
        others p u (db w) + (if liked p u (db w) \<noteq> odd i then 1 else 0)" if "i \<in> {1..n}" for i
  proof -
    from that obtain k where "i = Suc k" by (cases i) auto
    then show ?thesis using count_toggles[OF assms, where n=k] by auto
  qed
  show ?thesis
    using liked_toggles[OF assms] emits_toggles[OF assms] c
    by blast
qed

text \<open>Three toggles on the empty table: the counts go 1, 0, and the like ends present.\<close>

theorem likePost_toggle_sequence_witness:
  "faults w_empty = [] \<and> \<not> liked ''p1'' ''u2'' (db w_empty) \<and>
   liked ''p1'' ''u2'' (db (toggles 3 \<lparr>ld_postId = ''p1'', ld_userId = ''u2''\<rparr> s_one w_empty)) \<and>
   countLikes ''p1'' (db (toggles 2 \<lparr>ld_postId = ''p1'', ld_userId = ''u2''\<rparr> s_one w_empty)) = 0 \<and>
   countLikes ''p1'' (db (toggles 1 \<lparr>ld_postId = ''p1'', ld_userId = ''u2''\<rparr> s_one w_empty)) = 1"
proof -
  have f: "faults w_empty = []" by (simp add: w_empty_def)
  have l: "\<not> liked ''p1'' ''u2'' (db w_empty)" by (simp add: w_empty_def liked_def)
  have o: "others ''p1'' ''u2'' (db w_empty) = 0" by (simp add: w_empty_def others_def)
  have "(1::nat) \<in> {1..3}" "(2::nat) \<in> {1..3}" by simp_all
  with likePost_toggle_sequence[OF f, where p="''p1''" and u="''u2''" and n=3 and s=s_one] f l o show ?thesis
    by (simp del: toggles.simps)
qed

section \<open>Private messages\<close>


text \<open>
  C2. In every run of the privateMessage handler, whatever the storage does: the actions
  before the first delivery attempt (the lookup of the recipient's socket, or any emit)
  include the successful \<open>savePrivateMessage\<close>, which has put the row into the table;
  and when the save did not succeed there is no delivery attempt at all, so nothing is
  emitted to the recipient or to the sender, and no row is stored.
\<close>

theorem privateMessage_persists_first:
  "\<exists>new. trace (fst (on_privateMessage msg s w)) = trace w @ new \<and>
     (filter is_delivery new \<noteq> [] \<longrightarrow>
        Query ''savePrivateMessage'' True \<in> set (takeWhile (\<lambda>a. \<not> is_delivery a) new)) \<and>
     (Query ''savePrivateMessage'' True \<in> set new \<longrightarrow>
        messages (db (fst (on_privateMessage msg s w))) = messages (db w) @ [saved_row msg w]) \<and>
     (Query ''savePrivateMessage'' True \<notin> set new \<longrightarrow>
        filter is_delivery new = [] \<and>
        messages (db (fst (on_privateMessage msg s w))) = messages (db w))"
  by (auto simp: on_privateMessage_def Let_def savePrivateMessage_def getRecipientSocketId_def
      query_cases emit_def console_error_def log_action_def saved_row_def
      split: option.splits list.splits)

text \<open>Bob is online at socket s2; the message from u1 is saved, then delivered, then echoed.\<close>

theorem privateMessage_persists_first_witness:
  "\<exists>new. trace (fst (on_privateMessage msg_hi s_one w_bob_online)) = trace w_bob_online @ new \<and>
     filter is_delivery new \<noteq> [] \<and>
     Query ''savePrivateMessage'' True \<in> set (takeWhile (\<lambda>a. \<not> is_delivery a) new) \<and>
     messages (db (fst (on_privateMessage msg_hi s_one w_bob_online))) =
       [\<lparr>m_message_id = 1, m_sender_id = ''u1'', m_recipient_id = ''u2'',
         m_message_text = ''hi'', m_created_at = 0\<rparr>]"
proof -
  from privateMessage_persists_first[of msg_hi s_one w_bob_online] obtain new where
    t: "trace (fst (on_privateMessage msg_hi s_one w_bob_online)) = trace w_bob_online @ new" and
    a: "filter is_delivery new \<noteq> [] \<longrightarrow>
        Query ''savePrivateMessage'' True \<in> set (takeWhile (\<lambda>a. \<not> is_delivery a) new)" and
    b: "Query ''savePrivateMessage'' True \<in> set new \<longrightarrow>
        messages (db (fst (on_privateMessage msg_hi s_one w_bob_online))) =
          messages (db w_bob_online) @ [saved_row msg_hi w_bob_online]"
    by blast
  have "trace (fst (on_privateMessage msg_hi s_one w_bob_online)) =
      [Query ''savePrivateMessage'' True, Query ''getRecipientSocketId'' True,
       Emit (ToRoom ''s2'') ''newPrivateMessage'' (fullMsg msg_hi 0),
       Emit (ToSocket ''s1'') ''newPrivateMessage'' (fullMsg msg_hi 0)]"
    by (simp add: on_privateMessage_def Let_def savePrivateMessage_def getRecipientSocketId_def
        query_cases emit_def log_action_def w_bob_online_def w_empty_def msg_hi_def s_one_def
        falsy_def next_fails_def)
  with t have n: "new = [Query ''savePrivateMessage'' True, Query ''getRecipientSocketId'' True,
       Emit (ToRoom ''s2'') ''newPrivateMessage'' (fullMsg msg_hi 0),
       Emit (ToSocket ''s1'') ''newPrivateMessage'' (fullMsg msg_hi 0)]"
    by (simp add: w_bob_online_def w_empty_def)
  then have d: "filter is_delivery new \<noteq> []" by simp
  have r: "messages (db w_bob_online) @ [saved_row msg_hi w_bob_online] =
       [\<lparr>m_message_id = 1, m_sender_id = ''u1'', m_recipient_id = ''u2'',
         m_message_text = ''hi'', m_created_at = 0\<rparr>]"
    by (simp add: w_bob_online_def w_empty_def saved_row_def msg_hi_def next_message_id_def)
  from n have m: "Query ''savePrivateMessage'' True \<in> set new" by simp
  from t d a b m r show ?thesis by metis
qed

lemma history_contains:
  assumes "\<not> next_fails v" "m \<in> set (messages (db v))"
    "{m_sender_id m, m_recipient_id m} = {a, b}"
  shows "\<exists>rows. fst (getChatHistory a b v) = Inr rows \<and> chat_view m \<in> set rows"
proof -
  from assms(3) have "(m_sender_id m = a \<and> m_recipient_id m = b) \<or>
      (m_sender_id m = b \<and> m_recipient_id m = a)"
    by (auto simp: doubleton_eq_iff)
  with assms(1,2) show ?thesis
    by (simp add: getChatHistory_def query_cases)
qed

text \<open>
  C5, as stated, fails: the save succeeds, nobody is online, and the lookup of the
  recipient's socket throws; the handler goes to its \<open>catch\<close> and the echo to the sender
  is never emitted, while the message is stored.
\<close>

theorem privateMessage_lookup_failure_counterexample:
  "\<not> next_fails w_lookup_fails \<and>
   filter (\<lambda>r. o_userId r = pm_recipientId msg_hi) (online_users (db w_lookup_fails)) = [] \<and>
   trace (fst (on_privateMessage msg_hi s_one w_lookup_fails)) =
     [Query ''savePrivateMessage'' True, Query ''getRecipientSocketId'' False,
      ConsoleError ''Database Query Error:'', ConsoleError ''Error handling private message:''] \<and>
   emits (trace (fst (on_privateMessage msg_hi s_one w_lookup_fails))) = [] \<and>
   messages (db (fst (on_privateMessage msg_hi s_one w_lookup_fails))) =
     [\<lparr>m_message_id = 1, m_sender_id = ''u1'', m_recipient_id = ''u2'',
       m_message_text = ''hi'', m_created_at = 0\<rparr>]"
  by (simp add: on_privateMessage_def Let_def savePrivateMessage_def getRecipientSocketId_def
      query_cases console_error_def log_action_def w_lookup_fails_def w_empty_def msg_hi_def
      s_one_def falsy_def next_fails_def next_message_id_def)

text \<open>
  C5, amended. The save succeeds and the recipient has no row in \<open>online_users\<close>.
  Nothing is ever emitted to a room of the recipient. When the lookup of the recipient's
  socket succeeds, the only event of the run is the echo of the message to the sender's
  own socket; when the lookup throws, the run emits nothing. In both cases the message
  row is stored, and every later successful \<open>getChatHistory\<close> of the two users, asked
  in either order on a table that still holds the row, contains it.
\<close>

theorem privateMessage_recipient_offline:
  assumes "\<not> next_fails w"
    and "\<not> falsy (pm_senderId msg)" and "\<not> falsy (pm_recipientId msg)"
    and "\<not> falsy (pm_message msg)"
    and "filter (\<lambda>r. o_userId r = pm_recipientId msg) (online_users (db w)) = []"
  shows "emits (new_actions w (fst (on_privateMessage msg s w))) =
           (if next_fails (w\<lparr>faults := tl (faults w)\<rparr>) then []
            else [(ToSocket (socket_id s), ''newPrivateMessage'',
                   PObj [(''sender_id'', S (pm_senderId msg)),
                         (''recipient_id'', S (pm_recipientId msg)),
                         (''message'', S (pm_message msg)),
                         (''timestamp'', N (int (clock w)))])]) \<and>
         messages (db (fst (on_privateMessage msg s w))) = messages (db w) @ [saved_row msg w] \<and>
         (\<forall>v. \<not> next_fails v \<and>
              set (messages (db (fst (on_privateMessage msg s w)))) \<subseteq> set (messages (db v)) \<longrightarrow>
              (\<exists>rows. fst (getChatHistory (pm_senderId msg) (pm_recipientId msg) v) = Inr rows \<and>
                      chat_view (saved_row msg w) \<in> set rows) \<and>
              (\<exists>rows. fst (getChatHistory (pm_recipientId msg) (pm_senderId msg) v) = Inr rows \<and>
                      chat_view (saved_row msg w) \<in> set rows))"
proof -
  let ?w' = "fst (on_privateMessage msg s w)"
  have e: "emits (new_actions w ?w') =
           (if next_fails (w\<lparr>faults := tl (faults w)\<rparr>) then []
            else [(ToSocket (socket_id s), ''newPrivateMessage'',
                   PObj [(''sender_id'', S (pm_senderId msg)),
                         (''recipient_id'', S (pm_recipientId msg)),
                         (''message'', S (pm_message msg)),
                         (''timestamp'', N (int (clock w)))])])"
    using assms
    by (simp add: on_privateMessage_def Let_def savePrivateMessage_def getRecipientSocketId_def
        query_cases emit_def console_error_def log_action_def next_fails_def new_actions_def
        fullMsg_def)
  have m: "messages (db ?w') = messages (db w) @ [saved_row msg w]"
    using assms
    by (simp add: on_privateMessage_def Let_def savePrivateMessage_def getRecipientSocketId_def
        query_cases emit_def console_error_def log_action_def saved_row_def)
  have h: "(\<exists>rows. fst (getChatHistory (pm_senderId msg) (pm_recipientId msg) v) = Inr rows \<and>
                      chat_view (saved_row msg w) \<in> set rows) \<and>
              (\<exists>rows. fst (getChatHistory (pm_recipientId msg) (pm_senderId msg) v) = Inr rows \<and>
                      chat_view (saved_row msg w) \<in> set rows)"
    if v: "\<not> next_fails v \<and> set (messages (db ?w')) \<subseteq> set (messages (db v))" for v
  proof -
    from v m have i: "saved_row msg w \<in> set (messages (db v))" by auto
    have p: "{m_sender_id (saved_row msg w), m_recipient_id (saved_row msg w)} =
        {pm_senderId msg, pm_recipientId msg}"
      "{m_sender_id (saved_row msg w), m_recipient_id (saved_row msg w)} =
        {pm_recipientId msg, pm_senderId msg}"
      by (auto simp: saved_row_def)
    from v have n: "\<not> next_fails v" by simp
    from history_contains[OF n i p(1)] history_contains[OF n i p(2)] show ?thesis by blast
  qed
  from e m h show ?thesis by blast
qed

text \<open>
  C4. \<open>getChatHistory\<close> gives the same result for (A, B) and (B, A); when the query
  succeeds, its rows are exactly the views of the messages whose unordered pair of sender
  and recipient is {A, B}, in ascending order of creation time.
\<close>

theorem getChatHistory_symmetric:
  "getChatHistory a b w = getChatHistory b a w \<and>
   (case fst (getChatHistory a b w) of
      Inl e \<Rightarrow> next_fails w
    | Inr rows \<Rightarrow>
        \<not> next_fails w \<and>
        mset rows = image_mset chat_view
          (filter_mset (\<lambda>m. {m_sender_id m, m_recipient_id m} = {a, b}) (mset (messages (db w)))) \<and>
        sorted (map h_timestamp rows))"
proof -
  have p: "(\<lambda>m. (m_sender_id m = a \<and> m_recipient_id m = b) \<or>
               (m_sender_id m = b \<and> m_recipient_id m = a)) =
           (\<lambda>m. {m_sender_id m, m_recipient_id m} = {a, b})"
    by (auto simp: doubleton_eq_iff)
  have q: "(\<lambda>m. (m_sender_id m = b \<and> m_recipient_id m = a) \<or>
               (m_sender_id m = a \<and> m_recipient_id m = b)) =
           (\<lambda>m. {m_sender_id m, m_recipient_id m} = {a, b})"
    by (auto simp: doubleton_eq_iff)
  have v: "h_timestamp \<circ> chat_view = m_created_at"
    by (auto simp: chat_view_def)
  show ?thesis
    by (simp add: getChatHistory_def p q query_cases v)
qed

text \<open>
  Nobody is online: with the storage working u1 gets the echo, with the lookup failing
  nobody gets anything, and the history holds the message both times.
\<close>

theorem privateMessage_recipient_offline_witness:
  "\<not> next_fails w_empty \<and> \<not> next_fails w_lookup_fails \<and>
   \<not> falsy (pm_senderId msg_hi) \<and> \<not> falsy (pm_recipientId msg_hi) \<and>
   \<not> falsy (pm_message msg_hi) \<and>
   filter (\<lambda>r. o_userId r = pm_recipientId msg_hi) (online_users (db w_empty)) = [] \<and>
   filter (\<lambda>r. o_userId r = pm_recipientId msg_hi) (online_users (db w_lookup_fails)) = [] \<and>
   emits (new_actions w_empty (fst (on_privateMessage msg_hi s_one w_empty))) =
     [(ToSocket ''s1'', ''newPrivateMessage'',
       PObj [(''sender_id'', S ''u1''), (''recipient_id'', S ''u2''), (''message'', S ''hi''),
             (''timestamp'', N 0)])] \<and>
   emits (new_actions w_lookup_fails (fst (on_privateMessage msg_hi s_one w_lookup_fails))) = [] \<and>
   (\<exists>rows. fst (getChatHistory ''u2'' ''u1'' (fst (on_privateMessage msg_hi s_one w_empty))) =
             Inr rows \<and>
           \<lparr>h_message_id = 1, h_sender_id = ''u1'', h_message = ''hi'', h_timestamp = 0\<rparr>
             \<in> set rows) \<and>
   (\<exists>rows. fst (getChatHistory ''u2'' ''u1''
                  (fst (on_privateMessage msg_hi s_one w_lookup_fails))) = Inr rows \<and>
           \<lparr>h_message_id = 1, h_sender_id = ''u1'', h_message = ''hi'', h_timestamp = 0\<rparr>
             \<in> set rows)"
proof -
  have n: "\<not> next_fails w_empty" "\<not> next_fails w_lookup_fails"
    by (simp_all add: next_fails_def w_lookup_fails_def w_empty_def)
  have h: "\<not> falsy (pm_senderId msg_hi)" "\<not> falsy (pm_recipientId msg_hi)"
    "\<not> falsy (pm_message msg_hi)"
    by (simp_all add: msg_hi_def falsy_def)
  have o: "filter (\<lambda>r. o_userId r = pm_recipientId msg_hi) (online_users (db w_empty)) = []"
    "filter (\<lambda>r. o_userId r = pm_recipientId msg_hi) (online_users (db w_lookup_fails)) = []"
    by (simp_all add: w_lookup_fails_def w_empty_def)
  have v: "chat_view (saved_row msg_hi w_empty) =
      \<lparr>h_message_id = 1, h_sender_id = ''u1'', h_message = ''hi'', h_timestamp = 0\<rparr>"
    "chat_view (saved_row msg_hi w_lookup_fails) =
      \<lparr>h_message_id = 1, h_sender_id = ''u1'', h_message = ''hi'', h_timestamp = 0\<rparr>"
    by (simp_all add: chat_view_def saved_row_def msg_hi_def w_lookup_fails_def w_empty_def
        next_message_id_def)
  have i: "socket_id s_one = ''s1''" "clock w_empty = 0" "pm_recipientId msg_hi = ''u2''"
    "pm_senderId msg_hi = ''u1''" "pm_message msg_hi = ''hi''"
    by (simp_all add: s_one_def w_empty_def msg_hi_def)
  have l: "\<not> next_fails (w_empty\<lparr>faults := tl (faults w_empty)\<rparr>)"
    "next_fails (w_lookup_fails\<lparr>faults := tl (faults w_lookup_fails)\<rparr>)"
    by (simp_all add: next_fails_def w_lookup_fails_def w_empty_def)
  have a: "\<not> next_fails (fst (on_privateMessage msg_hi s_one w_empty))"
    "\<not> next_fails (fst (on_privateMessage msg_hi s_one w_lookup_fails))"
    by (simp_all add: on_privateMessage_def Let_def savePrivateMessage_def
        getRecipientSocketId_def query_cases emit_def console_error_def log_action_def
        w_lookup_fails_def w_empty_def msg_hi_def s_one_def falsy_def next_fails_def)
  note t1 = privateMessage_recipient_offline[OF n(1) h o(1), of s_one]
  note t2 = privateMessage_recipient_offline[OF n(2) h o(2), of s_one]
  from t1 l(1) i have e1: "emits (new_actions w_empty (fst (on_privateMessage msg_hi s_one w_empty))) =
     [(ToSocket ''s1'', ''newPrivateMessage'',
       PObj [(''sender_id'', S ''u1''), (''recipient_id'', S ''u2''), (''message'', S ''hi''),
             (''timestamp'', N 0)])]"
    by simp
  from t2 l(2) have e2:
    "emits (new_actions w_lookup_fails (fst (on_privateMessage msg_hi s_one w_lookup_fails))) = []"
    by simp
  from t1 a(1) have h1: "\<exists>rows. fst (getChatHistory (pm_recipientId msg_hi) (pm_senderId msg_hi)
        (fst (on_privateMessage msg_hi s_one w_empty))) = Inr rows \<and>
        chat_view (saved_row msg_hi w_empty) \<in> set rows"
    by blast
  from t2 a(2) have h2: "\<exists>rows. fst (getChatHistory (pm_recipientId msg_hi) (pm_senderId msg_hi)
        (fst (on_privateMessage msg_hi s_one w_lookup_fails))) = Inr rows \<and>
        chat_view (saved_row msg_hi w_lookup_fails) \<in> set rows"
    by blast
  from n h o e1 e2 h1 h2 v i show ?thesis by simp
qed

text \<open>One message between u1 and u2 in the table: both orders of asking return it.\<close>

theorem getChatHistory_symmetric_witness:
  "fst (getChatHistory ''u1'' ''u2'' (fst (on_privateMessage msg_hi s_one w_empty))) =
     fst (getChatHistory ''u2'' ''u1'' (fst (on_privateMessage msg_hi s_one w_empty))) \<and>
   fst (getChatHistory ''u2'' ''u1'' (fst (on_privateMessage msg_hi s_one w_empty))) =
     Inr [\<lparr>h_message_id = 1, h_sender_id = ''u1'', h_message = ''hi'', h_timestamp = 0\<rparr>]"
proof -
  have "fst (getChatHistory ''u2'' ''u1'' (fst (on_privateMessage msg_hi s_one w_empty))) =
     Inr [\<lparr>h_message_id = 1, h_sender_id = ''u1'', h_message = ''hi'', h_timestamp = 0\<rparr>]"
    by (simp add: on_privateMessage_def Let_def savePrivateMessage_def getRecipientSocketId_def
        getChatHistory_def query_cases emit_def log_action_def w_empty_def msg_hi_def s_one_def
        falsy_def next_fails_def chat_view_def next_message_id_def)
  with getChatHistory_symmetric[of "''u1''" "''u2''" "fst (on_privateMessage msg_hi s_one w_empty)"]
  show ?thesis by simp
qed

section \<open>Presence\<close>


lemma list_ex_user: "list_ex (\<lambda>r. o_userId r = u) rows = (u \<in> set (map o_userId rows))"
  by (induction rows) auto

lemma upsert_userIds:
  "map o_userId (upsert_socket u name c rows) =
     (if u \<in> set (map o_userId rows) then map o_userId rows else map o_userId rows @ [u])"
proof -
  have a: "map o_userId (map (\<lambda>r. if o_userId r = u then r\<lparr>o_socketId := c\<rparr> else r) rows) =
           map o_userId rows"
    by (induction rows) simp_all
  show ?thesis
    unfolding upsert_socket_def list_ex_user using a by simp
qed







lemma key_clash_user:
  "key_clash KeyUserId new = (\<lambda>r. o_userId r = o_userId new)"
  by (rule ext) (simp add: key_clash_def)

lemma key_clash_socket:
  "key_clash KeySocketId new = (\<lambda>r. o_socketId r = o_socketId new)"
  by (rule ext) (simp add: key_clash_def)
















text \<open>
  The unique key of \<open>online_users\<close>, whichever it is, is kept by every presence
  operation of server.js, so a table that starts empty always satisfies it.
\<close>

lemma query_db:
  "db (snd (query name stmt w)) =
     (if next_fails w \<or> (\<exists>e. stmt (db w) = Inl e) then db w
      else snd (projr (stmt (db w))))"
  by (simp add: query_cases)

lemma sockets_after_update:
  "map o_socketId (map (\<lambda>r. if o_socketId r = c then r\<lparr>o_socketId := c\<rparr> else r) rows) =
   map o_socketId rows"
  by (induction rows) simp_all

text \<open>The rows after the upsert, for either key.\<close>

lemma upsert_rows_user:
  "k = KeyUserId \<Longrightarrow>
   (if list_ex (key_clash k \<lparr>o_userId = u, o_username = name, o_socketId = c\<rparr>) rows
    then map (\<lambda>r. if key_clash k \<lparr>o_userId = u, o_username = name, o_socketId = c\<rparr> r
                  then r\<lparr>o_socketId := c\<rparr> else r) rows
    else rows @ [\<lparr>o_userId = u, o_username = name, o_socketId = c\<rparr>]) =
   upsert_socket u name c rows"
  by (simp add: key_clash_user upsert_socket_def)

lemma upsert_rows_socket:
  "k = KeySocketId \<Longrightarrow>
   map o_socketId
     (if list_ex (key_clash k \<lparr>o_userId = u, o_username = name, o_socketId = c\<rparr>) rows
      then map (\<lambda>r. if key_clash k \<lparr>o_userId = u, o_username = name, o_socketId = c\<rparr> r
                    then r\<lparr>o_socketId := c\<rparr> else r) rows
      else rows @ [\<lparr>o_userId = u, o_username = name, o_socketId = c\<rparr>]) =
   (if c \<in> set (map o_socketId rows) then map o_socketId rows else map o_socketId rows @ [c])"
proof -
  have l: "list_ex (\<lambda>r. o_socketId r = c) rows = (c \<in> set (map o_socketId rows))"
    by (induction rows) auto
  assume "k = KeySocketId"
  then show ?thesis
    by (simp only: key_clash_socket online_row.select_convs l if_distrib[of "map o_socketId"]
        sockets_after_update map_append list.map)
qed

lemma key_ok_upsert:
  assumes "key_ok t"
  shows "key_ok (t\<lparr>online_users :=
            (if list_ex (key_clash (online_users_key t)
                   \<lparr>o_userId = u, o_username = name, o_socketId = c\<rparr>) (online_users t)
             then map (\<lambda>r. if key_clash (online_users_key t)
                                \<lparr>o_userId = u, o_username = name, o_socketId = c\<rparr> r
                           then r\<lparr>o_socketId := c\<rparr> else r) (online_users t)
             else online_users t @ [\<lparr>o_userId = u, o_username = name, o_socketId = c\<rparr>])\<rparr>)"
proof (cases "online_users_key t")
  case KeyUserId
  with assms have d: "distinct (map o_userId (online_users t))" by (simp add: key_ok_def)
  then have "distinct (map o_userId (upsert_socket u name c (online_users t)))"
    by (simp add: upsert_userIds)
  then have "key_ok (t\<lparr>online_users := upsert_socket u name c (online_users t)\<rparr>)"
    using KeyUserId by (simp add: key_ok_def)
  then show ?thesis
    by (simp only: upsert_rows_user[OF KeyUserId])
next
  case KeySocketId
  with assms have d: "distinct (map o_socketId (online_users t))" by (simp add: key_ok_def)
  let ?rows = "if list_ex (key_clash (online_users_key t)
                   \<lparr>o_userId = u, o_username = name, o_socketId = c\<rparr>) (online_users t)
             then map (\<lambda>r. if key_clash (online_users_key t)
                                \<lparr>o_userId = u, o_username = name, o_socketId = c\<rparr> r
                           then r\<lparr>o_socketId := c\<rparr> else r) (online_users t)
             else online_users t @ [\<lparr>o_userId = u, o_username = name, o_socketId = c\<rparr>]"
  have "distinct (map o_socketId ?rows)"
    using d by (simp only: upsert_rows_socket[OF KeySocketId]) simp
  then show ?thesis
    using KeySocketId by (simp only: key_ok_def) simp
qed

lemma setOnlineStatus_keeps_key:
  assumes "key_ok (db w)"
  shows "key_ok (db (snd (setOnlineStatus u name c w)))"
proof (cases "next_fails w")
  case True
  then have "db (snd (setOnlineStatus u name c w)) = db w"
    by (simp add: setOnlineStatus_def query_db)
  with assms show ?thesis by simp
next
  case False
  then have "db (snd (setOnlineStatus u name c w)) = (db w)\<lparr>online_users :=
            (if list_ex (key_clash (online_users_key (db w))
                   \<lparr>o_userId = u, o_username = name, o_socketId = c\<rparr>) (online_users (db w))
             then map (\<lambda>r. if key_clash (online_users_key (db w))
                                \<lparr>o_userId = u, o_username = name, o_socketId = c\<rparr> r
                           then r\<lparr>o_socketId := c\<rparr> else r) (online_users (db w))
             else online_users (db w) @ [\<lparr>o_userId = u, o_username = name, o_socketId = c\<rparr>])\<rparr>"
    by (simp add: setOnlineStatus_def query_db Let_def)
  then show ?thesis
    by (simp only: key_ok_upsert[OF assms])
qed

lemma key_ok_delete:
  assumes "key_ok t"
  shows "key_ok (t\<lparr>online_users := filter P (online_users t)\<rparr>)"
  using assms by (cases "online_users_key t") (simp_all add: key_ok_def distinct_map_filter)

lemma removals_keep_key:
  assumes "key_ok (db w)"
  shows "key_ok (db (snd (removeOnlineStatusBySocketId c w))) \<and>
         key_ok (db (snd (removeOnlineStatusByUserId u w)))"
proof -
  have a: "db (snd (removeOnlineStatusBySocketId c w)) = db w \<or>
      db (snd (removeOnlineStatusBySocketId c w)) =
        (db w)\<lparr>online_users := filter (\<lambda>r. o_socketId r \<noteq> c) (online_users (db w))\<rparr>"
    by (simp add: removeOnlineStatusBySocketId_def query_db)
  have b: "db (snd (removeOnlineStatusByUserId u w)) = db w \<or>
      db (snd (removeOnlineStatusByUserId u w)) =
        (db w)\<lparr>online_users := filter (\<lambda>r. o_userId r \<noteq> u) (online_users (db w))\<rparr>"
    by (simp add: removeOnlineStatusByUserId_def query_db)
  from a have "key_ok (db (snd (removeOnlineStatusBySocketId c w)))"
  proof
    assume "db (snd (removeOnlineStatusBySocketId c w)) = db w"
    with assms show ?thesis by simp
  next
    assume e: "db (snd (removeOnlineStatusBySocketId c w)) =
        (db w)\<lparr>online_users := filter (\<lambda>r. o_socketId r \<noteq> c) (online_users (db w))\<rparr>"
    show ?thesis by (simp only: e key_ok_delete[OF assms])
  qed
  moreover from b have "key_ok (db (snd (removeOnlineStatusByUserId u w)))"
  proof
    assume "db (snd (removeOnlineStatusByUserId u w)) = db w"
    with assms show ?thesis by simp
  next
    assume e: "db (snd (removeOnlineStatusByUserId u w)) =
        (db w)\<lparr>online_users := filter (\<lambda>r. o_userId r \<noteq> u) (online_users (db w))\<rparr>"
    show ?thesis by (simp only: e key_ok_delete[OF assms])
  qed
  ultimately show ?thesis by simp
qed




section \<open>The online-users broadcast, failures and disconnect\<close>


lemma field_online_object:
  "field ''userId'' (online_object r) = S (o_userId r)"
  "field ''username'' (online_object r) = S (o_username r)"
  by (simp_all add: field_def online_object_def)

lemma broadcastOnlineUsers_cases:
  "broadcastOnlineUsers w =
     (if next_fails w
      then (Inl QueryError,
            w\<lparr>faults := tl (faults w),
              trace := trace w @ [Query ''getOnlineUsers'' False,
                                  ConsoleError ''Database Query Error:'']\<rparr>)
      else (Inr (),
            w\<lparr>faults := tl (faults w),
              trace := trace w @ [Query ''getOnlineUsers'' True,
                Emit Broadcast ''onlineUsers''
                  (PArr (map public_entry (online_users (db w))))]\<rparr>))"
  by (simp add: broadcastOnlineUsers_def getOnlineUsers_def query_cases emit_def log_action_def
      field_online_object public_entry_def comp_def)

lemma broadcastOnlineUsers_hides_socketId:
  "Emit tg ev pl \<in> set (new_actions w (snd (broadcastOnlineUsers w))) \<Longrightarrow>
   tg = Broadcast \<and> ev = ''onlineUsers'' \<and> payload_keys pl \<subseteq> {''userId'', ''username''}"
  by (auto simp: broadcastOnlineUsers_cases new_actions_def payload_keys_def public_entry_def
      split: if_splits)

text \<open>
  C6. The payload built by \<open>broadcastOnlineUsers\<close> has the fields \<open>userId\<close> and
  \<open>username\<close> only (lemma above). The session-based revision emits the rows of
  \<open>getOnlineUsers\<close> unchanged, and db.js selects \<open>socketId\<close> into them: when alice
  connects at socket s1, every client receives her socket id.
\<close>

theorem session_connection_emits_socketId:
  "emits (trace (on_connection_session (Some alice) s_one w_empty)) =
     [(Broadcast, ''onlineUsers'',
       PArr [[(''userId'', S ''u1''), (''username'', S ''alice''), (''socketId'', S ''s1'')]])] \<and>
   ''socketId'' \<in> payload_keys
     (PArr [[(''userId'', S ''u1''), (''username'', S ''alice''), (''socketId'', S ''s1'')]])"
  by (simp add: on_connection_session_def setOnlineStatus_def getOnlineUsers_def query_cases
      next_fails_def Let_def emit_def log_action_def w_empty_def s_one_def alice_def
      online_object_def payload_keys_def)

text \<open>
  What the handlers do catch: a failing query that the handler awaits. In that case
  nothing is emitted, the socket and the presence table are as before, and the last
  action is the handler's own \<open>console.error\<close>. For the three presence handlers this
  covers every failure except the one inside the unawaited broadcast.
\<close>

lemma likePost_failures_caught:
  assumes "list_ex is_failure (new_actions w (fst (on_likePost d s w)))"
  shows "emits (new_actions w (fst (on_likePost d s w))) = [] \<and>
         snd (on_likePost d s w) = s \<and>
         online_users (db (fst (on_likePost d s w))) = online_users (db w) \<and>
         UnhandledRejection \<notin> set (new_actions w (fst (on_likePost d s w))) \<and>
         last (new_actions w (fst (on_likePost d s w))) = ConsoleError ''Error handling likePost:''"
  using assms
  by (auto simp: on_likePost_def Let_def getLike_def addLike_def removeLike_def getLikeCount_def
      query_cases emit_def console_error_def log_action_def new_actions_def
      split: if_splits)

lemma privateMessage_failures_caught:
  assumes "list_ex is_failure (new_actions w (fst (on_privateMessage msg s w)))"
  shows "emits (new_actions w (fst (on_privateMessage msg s w))) = [] \<and>
         snd (on_privateMessage msg s w) = s \<and>
         online_users (db (fst (on_privateMessage msg s w))) = online_users (db w) \<and>
         UnhandledRejection \<notin> set (new_actions w (fst (on_privateMessage msg s w))) \<and>
         last (new_actions w (fst (on_privateMessage msg s w))) =
           ConsoleError ''Error handling private message:''"
  using assms
  by (auto simp: on_privateMessage_def Let_def savePrivateMessage_def getRecipientSocketId_def
      query_cases emit_def console_error_def log_action_def new_actions_def
      split: if_splits option.splits list.splits)

lemma userOnline_failures_caught:
  assumes "list_ex is_failure (new_actions w (fst (on_userOnline d s w)))"
    and "UnhandledRejection \<notin> set (new_actions w (fst (on_userOnline d s w)))"
  shows "emits (new_actions w (fst (on_userOnline d s w))) = [] \<and>
         snd (on_userOnline d s w) = s \<and>
         online_users (db (fst (on_userOnline d s w))) = online_users (db w) \<and>
         last (new_actions w (fst (on_userOnline d s w))) =
           ConsoleError ''Error setting user online status:''"
  using assms
  by (auto simp: on_userOnline_def Let_def setOnlineStatus_def broadcastOnlineUsers_cases
      unawaited_def query_cases console_error_def log_action_def new_actions_def
      split: if_splits)

lemma userOffline_failures_caught:
  assumes "list_ex is_failure (new_actions w (fst (on_userOffline d s w)))"
    and "UnhandledRejection \<notin> set (new_actions w (fst (on_userOffline d s w)))"
  shows "emits (new_actions w (fst (on_userOffline d s w))) = [] \<and>
         snd (on_userOffline d s w) = s \<and>
         online_users (db (fst (on_userOffline d s w))) = online_users (db w) \<and>
         last (new_actions w (fst (on_userOffline d s w))) =
           ConsoleError ''Error removing user status:''"
  using assms
  by (auto simp: on_userOffline_def Let_def removeOnlineStatusByUserId_def
      broadcastOnlineUsers_cases unawaited_def query_cases console_error_def log_action_def
      new_actions_def split: if_splits)

lemma disconnect_failures_caught:
  assumes "list_ex is_failure (new_actions w (fst (on_disconnect s w)))"
    and "UnhandledRejection \<notin> set (new_actions w (fst (on_disconnect s w)))"
  shows "emits (new_actions w (fst (on_disconnect s w))) = [] \<and>
         snd (on_disconnect s w) = s \<and>
         online_users (db (fst (on_disconnect s w))) = online_users (db w) \<and>
         last (new_actions w (fst (on_disconnect s w))) =
           ConsoleError ''Error removing user status on disconnect:''"
  using assms
  by (auto simp: on_disconnect_def Let_def removeOnlineStatusBySocketId_def
      broadcastOnlineUsers_cases unawaited_def query_cases console_error_def log_action_def
      new_actions_def split: if_splits)

text \<open>
  C7. \<open>userOnline\<close> with the upsert succeeding and the read of the online list failing:
  the rejection of the unawaited \<open>broadcastOnlineUsers()\<close> is not caught by the
  handler's \<open>try\<close>; the trace ends with an unhandled rejection and the handler's own
  \<open>console.error\<close> is never reached.
\<close>

theorem userOnline_broadcast_failure_unhandled:
  "on_userOnline come_online s_one (w_empty\<lparr>faults := [False, True]\<rparr>) =
     (w_empty\<lparr>db := (db w_empty)\<lparr>online_users :=
          [\<lparr>o_userId = ''u1'', o_username = ''alice'', o_socketId = ''s1''\<rparr>]\<rparr>,
        trace := [Query ''setOnlineStatus'' True, Query ''getOnlineUsers'' False,
                  ConsoleError ''Database Query Error:'', UnhandledRejection]\<rparr>,
      s_one\<lparr>socket_userId := Some ''u1''\<rparr>)"
  by (simp add: on_userOnline_def setOnlineStatus_def broadcastOnlineUsers_cases query_cases
      next_fails_def Let_def unawaited_def log_action_def w_empty_def s_one_def come_online_def
      falsy_def)

lemma on_disconnect_ok:
  assumes "faults w = []"
  shows "on_disconnect s w =
     (if identified s
      then (w\<lparr>db := (db w)\<lparr>online_users :=
                  filter (\<lambda>r. o_socketId r \<noteq> socket_id s) (online_users (db w))\<rparr>,
              trace := trace w @ [Query ''removeOnlineStatusBySocketId'' True,
                Query ''getOnlineUsers'' True,
                Emit Broadcast ''onlineUsers''
                  (PArr (map public_entry
                     (filter (\<lambda>r. o_socketId r \<noteq> socket_id s) (online_users (db w)))))]\<rparr>, s)
      else (w, s))"
  using assms
  by (simp add: on_disconnect_def removeOnlineStatusBySocketId_def broadcastOnlineUsers_cases
      query_ok next_fails_def unawaited_def)

text \<open>
  C8, as stated, fails: alice is identified on socket s1 and has her row in the table;
  the first disconnect removes the row, and the second disconnect of the same socket
  still emits an \<open>onlineUsers\<close> broadcast.
\<close>

theorem disconnect_twice_counterexample:
  "emits (new_actions (fst (on_disconnect s_alice w_alice_online))
      (fst (on_disconnect (snd (on_disconnect s_alice w_alice_online))
                          (fst (on_disconnect s_alice w_alice_online))))) =
     [(Broadcast, ''onlineUsers'', PArr [])] \<and>
   online_users (db (fst (on_disconnect s_alice w_alice_online))) = []"
proof -
  have f: "faults w_alice_online = []" by (simp add: w_alice_online_def w_empty_def)
  have i: "identified s_alice" by (simp add: identified_def s_alice_def)
  have r1: "on_disconnect s_alice w_alice_online =
      (w_alice_online\<lparr>db := (db w_alice_online)\<lparr>online_users := []\<rparr>,
         trace := [Query ''removeOnlineStatusBySocketId'' True, Query ''getOnlineUsers'' True,
                   Emit Broadcast ''onlineUsers'' (PArr [])]\<rparr>, s_alice)"
    by (simp add: on_disconnect_ok[OF f] i) (simp add: w_alice_online_def w_empty_def s_alice_def)
  have f1: "faults (w_alice_online\<lparr>db := (db w_alice_online)\<lparr>online_users := []\<rparr>,
         trace := [Query ''removeOnlineStatusBySocketId'' True, Query ''getOnlineUsers'' True,
                   Emit Broadcast ''onlineUsers'' (PArr [])]\<rparr>) = []"
    by (simp add: f)
  show ?thesis
    by (simp add: r1 on_disconnect_ok[OF f1] i new_actions_def)
qed

text \<open>
  C8, amended. With the storage working, disconnecting the same socket twice raises no
  error (no failed query, no unhandled rejection) and the second run removes nothing;
  for an identified socket it does emit a second \<open>onlineUsers\<close> broadcast, which
  repeats the first one (the list without the rows of this socket); for a socket that
  never identified itself neither run emits anything.
\<close>

theorem disconnect_twice:
  assumes "faults w = []"
  shows "\<not> list_ex is_failure (new_actions w
            (fst (on_disconnect (snd (on_disconnect s w)) (fst (on_disconnect s w))))) \<and>
         UnhandledRejection \<notin> set (new_actions w
            (fst (on_disconnect (snd (on_disconnect s w)) (fst (on_disconnect s w))))) \<and>
         online_users (db (fst (on_disconnect (snd (on_disconnect s w)) (fst (on_disconnect s w))))) =
           online_users (db (fst (on_disconnect s w))) \<and>
         emits (new_actions (fst (on_disconnect s w))
            (fst (on_disconnect (snd (on_disconnect s w)) (fst (on_disconnect s w))))) =
           (if identified s
            then [(Broadcast, ''onlineUsers'',
                   PArr (map public_entry
                     (filter (\<lambda>r. o_socketId r \<noteq> socket_id s) (online_users (db w)))))]
            else []) \<and>
         emits (new_actions (fst (on_disconnect s w))
            (fst (on_disconnect (snd (on_disconnect s w)) (fst (on_disconnect s w))))) =
           emits (new_actions w (fst (on_disconnect s w)))"
proof -
  have f1: "faults (fst (on_disconnect s w)) = []"
    using assms by (simp add: on_disconnect_ok)
  have s1: "snd (on_disconnect s w) = s"
    using assms by (simp add: on_disconnect_ok)
  show ?thesis
    by (simp add: s1 on_disconnect_ok[OF f1]) (simp add: on_disconnect_ok[OF assms] new_actions_def)
qed

text \<open>Alice's socket, disconnected twice: the empty list is broadcast both times.\<close>

theorem disconnect_twice_witness:
  "faults w_alice_online = [] \<and> identified s_alice \<and>
   online_users (db (fst (on_disconnect (snd (on_disconnect s_alice w_alice_online))
      (fst (on_disconnect s_alice w_alice_online))))) = [] \<and>
   emits (new_actions w_alice_online (fst (on_disconnect s_alice w_alice_online))) =
     [(Broadcast, ''onlineUsers'', PArr [])]"
proof -
  have f: "faults w_alice_online = []" by (simp add: w_alice_online_def w_empty_def)
  have i: "identified s_alice" by (simp add: identified_def s_alice_def)
  have o: "filter (\<lambda>r. o_socketId r \<noteq> socket_id s_alice) (online_users (db w_alice_online)) = []"
    by (simp add: w_alice_online_def w_empty_def s_alice_def)
  have d: "online_users (db (fst (on_disconnect s_alice w_alice_online))) = []"
    by (simp add: on_disconnect_ok[OF f] i o)
  note t = disconnect_twice[OF f, of s_alice]
  from t have a: "online_users (db (fst (on_disconnect (snd (on_disconnect s_alice w_alice_online))
      (fst (on_disconnect s_alice w_alice_online))))) =
      online_users (db (fst (on_disconnect s_alice w_alice_online)))"
    by blast
  from t have "emits (new_actions w_alice_online (fst (on_disconnect s_alice w_alice_online))) =
      (if identified s_alice
       then [(Broadcast, ''onlineUsers'',
              PArr (map public_entry (filter (\<lambda>r. o_socketId r \<noteq> socket_id s_alice)
                 (online_users (db w_alice_online)))))]
       else [])"
    by metis
  with i o have b: "emits (new_actions w_alice_online (fst (on_disconnect s_alice w_alice_online))) =
      [(Broadcast, ''onlineUsers'', PArr [])]"
    by simp
  from f i a d b show ?thesis by simp
qed

text \<open>
  The later revision's handler, which broadcasts only when \<open>unregisterOnlineUser\<close>
  removed a row, emits nothing on a second disconnect.
\<close>

lemma on_disconnect_later_ok:
  assumes "faults w = []"
  shows "on_disconnect_later s w =
     (if list_ex (\<lambda>r. o_socketId r = socket_id s) (online_users (db w))
      then w\<lparr>db := (db w)\<lparr>online_users :=
                  filter (\<lambda>r. o_socketId r \<noteq> socket_id s) (online_users (db w))\<rparr>,
              trace := trace w @ [Query ''unregisterOnlineUser'' True,
                Query ''getOnlineUsers'' True,
                Emit Broadcast ''onlineUsers''
                  (PArr (map public_entry
                     (filter (\<lambda>r. o_socketId r \<noteq> socket_id s) (online_users (db w)))))]\<rparr>
      else w\<lparr>db := (db w)\<lparr>online_users :=
                  filter (\<lambda>r. o_socketId r \<noteq> socket_id s) (online_users (db w))\<rparr>,
              trace := trace w @ [Query ''unregisterOnlineUser'' True]\<rparr>, s)"
  using assms
  by (simp add: on_disconnect_later_def unregisterOnlineUser_def broadcastOnlineUsers_cases
      query_ok next_fails_def unawaited_def)

lemma disconnect_later_twice:
  assumes "faults w = []"
  shows "emits (new_actions (fst (on_disconnect_later s w))
            (fst (on_disconnect_later (snd (on_disconnect_later s w))
                    (fst (on_disconnect_later s w))))) = []"
proof -
  have f1: "faults (fst (on_disconnect_later s w)) = []"
    using assms by (simp add: on_disconnect_later_ok)
  have s1: "snd (on_disconnect_later s w) = s"
    using assms by (simp add: on_disconnect_later_ok)
  have g: "\<not> list_ex (\<lambda>r. o_socketId r = socket_id s)
              (online_users (db (fst (on_disconnect_later s w))))"
    using assms by (simp add: on_disconnect_later_ok list_ex_iff)
  show ?thesis
    by (simp add: s1 on_disconnect_later_ok[OF f1] g new_actions_def)
qed

section \<open>Comments\<close>


lemma api_comment_ok:
  assumes "faults w = []" "\<not> falsy (cb_post_id body)" "\<not> falsy (cb_user_id body)"
    "\<not> falsy (cb_content body)"
  shows "api_comment body cid w =
     (\<lparr>res_status = 200, res_success = True,
       res_comment = Some (newComment body cid (clock w))\<rparr>,
      w\<lparr>db := (db w)\<lparr>comments := comments (db w) @
              [\<lparr>c_id = cid, c_post_id = cb_post_id body, c_user_id = cb_user_id body,
                c_content = cb_content body, c_created_at = clock w\<rparr>]\<rparr>,
        trace := trace w @ [Query ''createComment'' True,
           Emit Broadcast ''commentUpdate'' (PObj (newComment body cid (clock w)))]\<rparr>)"
  using assms
  by (simp add: api_comment_def createComment_def query_ok emit_def log_action_def)

text \<open>
  C9, as stated, fails: the users table holds \<open>/new.png\<close> for alice, the request body
  still carries \<open>/old.png\<close>, and the broadcast comment carries \<open>/old.png\<close>.
\<close>

theorem comment_broadcast_counterexample:
  "emits (trace (snd (api_comment body_stale ''c1'' w_profile))) =
     [(Broadcast, ''commentUpdate'', PObj (newComment body_stale ''c1'' 0))] \<and>
   field ''profilePicUrl'' (newComment body_stale ''c1'' 0) = S ''/old.png'' \<and>
   profile_of ''u1'' (db (snd (api_comment body_stale ''c1'' w_profile))) =
     [(''alice'', Some ''/new.png'')]"
proof -
  have f: "faults w_profile = []" by (simp add: w_profile_def w_empty_def)
  have v: "\<not> falsy (cb_post_id body_stale)" "\<not> falsy (cb_user_id body_stale)"
    "\<not> falsy (cb_content body_stale)"
    by (simp_all add: body_stale_def falsy_def)
  have p: "field ''profilePicUrl'' (newComment body_stale ''c1'' 0) = S ''/old.png''"
    by (simp add: field_def newComment_def body_stale_def)
  show ?thesis
    by (simp add: api_comment_ok[OF f v] p) (simp add: w_profile_def w_empty_def profile_of_def)
qed

lemma getCommentsByPostId_ok:
  assumes "faults w = []"
  shows "fst (getCommentsByPostId p w) =
     Inr (map comment_join
           (sort_key (\<lambda>r. c_created_at (fst r))
              (concat (map (\<lambda>c. map (Pair c)
                                   (filter (\<lambda>u. u_user_id u = c_user_id c) (users (db w))))
                         (filter (\<lambda>c. c_post_id c = p) (comments (db w)))))))"
  using assms by (simp add: getCommentsByPostId_def query_ok)

text \<open>
  C9, amended. For a valid request with the storage working, the one \<open>commentUpdate\<close>
  broadcast carries the user name and profile picture that the request body supplied.
  The join against the users table is applied when comments are fetched: every row of
  \<open>getCommentsByPostId\<close> carries the name and picture that the users table holds for its
  author at fetch time, and the new comment is among the rows with those of its author.
\<close>

theorem comment_broadcast_from_request:
  assumes "faults w = []" "\<not> falsy (cb_post_id body)" "\<not> falsy (cb_user_id body)"
    "\<not> falsy (cb_content body)"
  shows "emits (new_actions w (snd (api_comment body cid w))) =
           [(Broadcast, ''commentUpdate'', PObj (newComment body cid (clock w)))] \<and>
         field ''username'' (newComment body cid (clock w)) = cb_username body \<and>
         field ''profilePicUrl'' (newComment body cid (clock w)) = cb_profilePicUrl body \<and>
         (\<exists>rows. fst (getCommentsByPostId (cb_post_id body) (snd (api_comment body cid w))) =
                   Inr rows \<and>
            (\<forall>r\<in>set rows. (cv_username r, cv_profilePicUrl r) \<in>
                 set (profile_of (cv_user_id r) (db (snd (api_comment body cid w))))) \<and>
            (\<forall>pr\<in>set (profile_of (cb_user_id body) (db (snd (api_comment body cid w)))).
                 \<exists>r\<in>set rows. cv_id r = cid \<and> cv_content r = cb_content body \<and>
                    (cv_username r, cv_profilePicUrl r) = pr))"
proof -
  let ?w' = "snd (api_comment body cid w)"
  have f': "faults ?w' = []" using assms by (simp add: api_comment_ok)
  have e: "emits (new_actions w ?w') =
           [(Broadcast, ''commentUpdate'', PObj (newComment body cid (clock w)))]"
    using assms by (simp add: api_comment_ok new_actions_def)
  have n: "field ''username'' (newComment body cid (clock w)) = cb_username body"
    "field ''profilePicUrl'' (newComment body cid (clock w)) = cb_profilePicUrl body"
    by (simp_all add: field_def newComment_def)
  have a: "\<forall>r\<in>set (map comment_join
           (sort_key (\<lambda>r. c_created_at (fst r))
              (concat (map (\<lambda>c. map (Pair c)
                                   (filter (\<lambda>u. u_user_id u = c_user_id c) (users (db ?w'))))
                         (filter (\<lambda>c. c_post_id c = cb_post_id body) (comments (db ?w'))))))).
          (cv_username r, cv_profilePicUrl r) \<in> set (profile_of (cv_user_id r) (db ?w'))"
    by (auto simp: comment_join_def profile_of_def)
  have b: "\<forall>pr\<in>set (profile_of (cb_user_id body) (db ?w')).
       \<exists>r\<in>set (map comment_join
           (sort_key (\<lambda>r. c_created_at (fst r))
              (concat (map (\<lambda>c. map (Pair c)
                                   (filter (\<lambda>u. u_user_id u = c_user_id c) (users (db ?w'))))
                         (filter (\<lambda>c. c_post_id c = cb_post_id body) (comments (db ?w'))))))).
         cv_id r = cid \<and> cv_content r = cb_content body \<and>
         (cv_username r, cv_profilePicUrl r) = pr"
  proof
    fix pr assume "pr \<in> set (profile_of (cb_user_id body) (db ?w'))"
    then obtain u where u: "u \<in> set (users (db ?w'))" "u_user_id u = cb_user_id body"
      "pr = (u_username u, u_profile_pic_url u)"
      by (auto simp: profile_of_def)
    let ?c = "\<lparr>c_id = cid, c_post_id = cb_post_id body, c_user_id = cb_user_id body,
                c_content = cb_content body, c_created_at = clock w\<rparr>"
    have c: "?c \<in> set (comments (db ?w'))"
      using assms by (simp add: api_comment_ok)
    have "(?c, u) \<in> set (concat (map (\<lambda>c. map (Pair c)
                                   (filter (\<lambda>u. u_user_id u = c_user_id c) (users (db ?w'))))
                         (filter (\<lambda>c. c_post_id c = cb_post_id body) (comments (db ?w')))))"
      using c u(1,2) by (simp add: image_iff)
    then have "comment_join (?c, u) \<in> set (map comment_join
           (sort_key (\<lambda>r. c_created_at (fst r))
              (concat (map (\<lambda>c. map (Pair c)
                                   (filter (\<lambda>u. u_user_id u = c_user_id c) (users (db ?w'))))
                         (filter (\<lambda>c. c_post_id c = cb_post_id body) (comments (db ?w')))))))"
      by (simp del: set_concat)
    moreover have "cv_id (comment_join (?c, u)) = cid \<and>
        cv_content (comment_join (?c, u)) = cb_content body \<and>
        (cv_username (comment_join (?c, u)), cv_profilePicUrl (comment_join (?c, u))) = pr"
      using u(3) by (simp add: comment_join_def)
    ultimately show "\<exists>r\<in>set (map comment_join
           (sort_key (\<lambda>r. c_created_at (fst r))
              (concat (map (\<lambda>c. map (Pair c)
                                   (filter (\<lambda>u. u_user_id u = c_user_id c) (users (db ?w'))))
                         (filter (\<lambda>c. c_post_id c = cb_post_id body) (comments (db ?w'))))))).
         cv_id r = cid \<and> cv_content r = cb_content body \<and>
         (cv_username r, cv_profilePicUrl r) = pr"
      by blast
  qed
  from e n a b show ?thesis
    by (simp only: getCommentsByPostId_ok[OF f']) blast
qed

text \<open>Alice's comment with the stale picture in the request: broadcast stale, fetched fresh.\<close>

theorem comment_broadcast_from_request_witness:
  "faults w_profile = [] \<and> \<not> falsy (cb_post_id body_stale) \<and> \<not> falsy (cb_user_id body_stale) \<and>
   \<not> falsy (cb_content body_stale) \<and>
   emits (new_actions w_profile (snd (api_comment body_stale ''c1'' w_profile))) =
     [(Broadcast, ''commentUpdate'', PObj (newComment body_stale ''c1'' 0))] \<and>
   field ''profilePicUrl'' (newComment body_stale ''c1'' 0) = S ''/old.png'' \<and>
   (\<exists>rows. fst (getCommentsByPostId ''p1'' (snd (api_comment body_stale ''c1'' w_profile))) =
             Inr rows \<and>
           (\<exists>r\<in>set rows. cv_id r = ''c1'' \<and> cv_profilePicUrl r = Some ''/new.png''))"
proof -
  have f: "faults w_profile = []" by (simp add: w_profile_def w_empty_def)
  have v: "\<not> falsy (cb_post_id body_stale)" "\<not> falsy (cb_user_id body_stale)"
    "\<not> falsy (cb_content body_stale)"
    by (simp_all add: body_stale_def falsy_def)
  have i: "cb_post_id body_stale = ''p1''" "cb_user_id body_stale = ''u1''"
    "cb_profilePicUrl body_stale = S ''/old.png''" "clock w_profile = 0"
    by (simp_all add: body_stale_def w_profile_def w_empty_def)
  have p: "profile_of ''u1'' (db (snd (api_comment body_stale ''c1'' w_profile))) =
     [(''alice'', Some ''/new.png'')]"
    by (simp add: api_comment_ok[OF f v]) (simp add: w_profile_def w_empty_def profile_of_def)
  from comment_broadcast_from_request[OF f v, of "''c1''"] obtain rows where
    e: "emits (new_actions w_profile (snd (api_comment body_stale ''c1'' w_profile))) =
           [(Broadcast, ''commentUpdate'', PObj (newComment body_stale ''c1'' (clock w_profile)))]" and
    n: "field ''profilePicUrl'' (newComment body_stale ''c1'' (clock w_profile)) =
          cb_profilePicUrl body_stale" and
    r: "fst (getCommentsByPostId (cb_post_id body_stale)
          (snd (api_comment body_stale ''c1'' w_profile))) = Inr rows" and
    a: "\<forall>pr\<in>set (profile_of (cb_user_id body_stale)
                      (db (snd (api_comment body_stale ''c1'' w_profile)))).
          \<exists>r\<in>set rows. cv_id r = ''c1'' \<and> cv_content r = cb_content body_stale \<and>
             (cv_username r, cv_profilePicUrl r) = pr"
    by blast
  from a p i have "\<exists>r\<in>set rows. cv_id r = ''c1'' \<and> cv_profilePicUrl r = Some ''/new.png''"
    by auto
  with f v e n r i show ?thesis by auto
qed

section \<open>The feed\<close>


lemma sorted_newest_first:
  "sorted (map (\<lambda>r. - int (p_created_at (fst r))) (newest_first rows))"
  unfolding newest_first_def by (rule sorted_sort_key)

lemma length_newest_first: "length (newest_first rows) = length rows"
  by (simp add: newest_first_def)

lemma take_before_drop:
  assumes "sorted (map k xs)" "x \<in> set (take n xs)" "y \<in> set (drop n xs)"
  shows "k x \<le> k y"
proof -
  have "sorted (map k (take n xs) @ map k (drop n xs))"
    using assms(1) by (simp only: map_append[symmetric] append_take_drop_id)
  then have "\<forall>a\<in>set (map k (take n xs)). \<forall>b\<in>set (map k (drop n xs)). a \<le> b"
    by (simp only: sorted_append) blast
  with assms(2,3) show ?thesis by simp
qed

lemma newest_desc:
  "sorted_wrt (\<lambda>a b. p_created_at (fst b) \<le> p_created_at (fst a)) (newest_first rows)"
proof -
  from sorted_newest_first[of rows]
  have "sorted_wrt (\<lambda>a b. - int (p_created_at (fst a)) \<le> - int (p_created_at (fst b)))
          (newest_first rows)"
    by (simp only: sorted_map)
  then show ?thesis by simp
qed

lemma feed_desc:
  "sorted_wrt (\<lambda>a b. p_created_at (fst b) \<le> p_created_at (fst a)) xs \<Longrightarrow>
   sorted_wrt (\<lambda>a b. pv_created_at b \<le> pv_created_at a) (map (feed_view t) xs)"
  by (simp add: sorted_wrt_map feed_view_def)

lemma feed_later_desc:
  "sorted_wrt (\<lambda>a b. p_created_at (fst b) \<le> p_created_at (fst a)) xs \<Longrightarrow>
   sorted_wrt (\<lambda>a b. pv_created_at b \<le> pv_created_at a) (map (feed_view_later t) xs)"
  by (simp add: sorted_wrt_map feed_view_later_def feed_view_def)

lemma getAllPosts_cases:
  "fst (getAllPosts w) =
     (if next_fails w then Inl QueryError
      else Inr (map (feed_view (db w)) (take 20 (newest_first (posts_join_users (db w))))))"
  by (simp add: getAllPosts_def query_cases)

lemma getAllPosts_later_cases:
  "fst (getAllPosts_later w) =
     (if next_fails w then Inl QueryError
      else Inr (map (feed_view_later (db w)) (newest_first (posts_join_users (db w)))))"
  by (simp add: getAllPosts_later_def query_cases)

lemma pv_id_views:
  "map pv_id (map (feed_view t) xs) = map (\<lambda>r. p_id (fst r)) xs"
  "map pv_id (map (feed_view_later t) xs) = map (\<lambda>r. p_id (fst r)) xs"
  by (simp_all add: feed_view_def feed_view_later_def)

text \<open>
  C10. When the query succeeds, \<open>getAllPosts\<close> of db.js returns the first 20 rows of
  the newest-first listing of the joined posts: at most 20 rows (exactly 20 when there are
  more posts), in descending order of creation time, and every row it leaves out is no
  newer than any row it returns. \<open>getAllPosts\<close> of the later db.js returns the whole
  listing, in the same order, with no cap.
\<close>

theorem getAllPosts_newest_twenty:
  "(case fst (getAllPosts w) of
      Inl e \<Rightarrow> next_fails w
    | Inr rows \<Rightarrow>
        \<not> next_fails w \<and>
        length rows = min 20 (length (posts_join_users (db w))) \<and>
        sorted_wrt (\<lambda>a b. pv_created_at b \<le> pv_created_at a) rows \<and>
        map pv_id rows =
          take 20 (map (\<lambda>r. p_id (fst r)) (newest_first (posts_join_users (db w)))) \<and>
        (\<forall>r\<in>set rows. \<forall>q\<in>set (drop 20 (newest_first (posts_join_users (db w)))).
            p_created_at (fst q) \<le> pv_created_at r)) \<and>
   (case fst (getAllPosts_later w) of
      Inl e \<Rightarrow> next_fails w
    | Inr rows \<Rightarrow>
        \<not> next_fails w \<and>
        length rows = length (posts_join_users (db w)) \<and>
        sorted_wrt (\<lambda>a b. pv_created_at b \<le> pv_created_at a) rows \<and>
        map pv_id rows = map (\<lambda>r. p_id (fst r)) (newest_first (posts_join_users (db w))))"
proof -
  let ?L = "newest_first (posts_join_users (db w))"
  have a: "length (map (feed_view (db w)) (take 20 ?L)) = min 20 (length (posts_join_users (db w)))"
    by (simp add: length_newest_first min.commute)
  have b: "sorted_wrt (\<lambda>a b. pv_created_at b \<le> pv_created_at a) (map (feed_view (db w)) (take 20 ?L))"
    by (rule feed_desc) (rule sorted_wrt_take[OF newest_desc])
  have c: "map pv_id (map (feed_view (db w)) (take 20 ?L)) = take 20 (map (\<lambda>r. p_id (fst r)) ?L)"
    by (simp only: pv_id_views take_map)
  have d: "\<forall>r\<in>set (map (feed_view (db w)) (take 20 ?L)). \<forall>q\<in>set (drop 20 ?L).
            p_created_at (fst q) \<le> pv_created_at r"
  proof (intro ballI)
    fix r q assume r: "r \<in> set (map (feed_view (db w)) (take 20 ?L))" and q: "q \<in> set (drop 20 ?L)"
    from r obtain x where x: "x \<in> set (take 20 ?L)" "r = feed_view (db w) x" by auto
    from take_before_drop[OF sorted_newest_first x(1) q]
    have "p_created_at (fst q) \<le> p_created_at (fst x)" by simp
    with x(2) show "p_created_at (fst q) \<le> pv_created_at r" by (simp add: feed_view_def)
  qed
  have e: "length (map (feed_view_later (db w)) ?L) = length (posts_join_users (db w))"
    by (simp add: length_newest_first)
  have f: "sorted_wrt (\<lambda>a b. pv_created_at b \<le> pv_created_at a) (map (feed_view_later (db w)) ?L)"
    by (rule feed_later_desc) (rule newest_desc)
  have g: "map pv_id (map (feed_view_later (db w)) ?L) = map (\<lambda>r. p_id (fst r)) ?L"
    by (simp only: pv_id_views)
  show ?thesis
    using a b c d e f g
    by (simp only: getAllPosts_cases getAllPosts_later_cases split: if_splits) simp
qed

text \<open>Twenty-one posts by alice: the capped query returns 20 rows, the later one 21.\<close>

theorem getAllPosts_newest_twenty_witness:
  "\<not> next_fails w_feed \<and> length (posts_join_users (db w_feed)) = 21 \<and>
   (\<exists>rows. fst (getAllPosts w_feed) = Inr rows \<and> length rows = 20) \<and>
   (\<exists>rows. fst (getAllPosts_later w_feed) = Inr rows \<and> length rows = 21)"
proof -
  have n: "\<not> next_fails w_feed"
    by (simp add: next_fails_def w_feed_def w_profile_def w_empty_def)
  have "posts_join_users (db w_feed) =
      map (\<lambda>n. (mk_post n, \<lparr>u_user_id = ''u1'', u_username = ''alice'',
                             u_profile_pic_url = Some ''/new.png''\<rparr>)) [0..<21]"
    by (simp only: posts_join_users_def w_feed_def w_profile_def w_empty_def)
       (simp add: mk_post_def comp_def del: upt_rec_numeral)
  then have l: "length (posts_join_users (db w_feed)) = 21" by simp
  from getAllPosts_newest_twenty[of w_feed] n l show ?thesis
    by (auto split: sum.splits)
qed


end
